theory Spec2Isabelle
  imports Complex_Main "HOL-Library.Word"
begin

unbundle bit_operations_syntax

section \<open>JavaScript primitives used by the theme code\<close>

text \<open>
  Strings are \<open>char list\<close>. The numbers of \<open>ThemeUtils\<close> are modelled in two sorts:
  integer-valued numbers as \<open>int\<close> (with \<open>None\<close> for \<open>NaN\<close> where \<open>parseInt\<close> may
  produce it), and fractional numbers as \<open>real\<close>: a double is the real number that it
  denotes. The two products whose value is rounded to an integer, \<open>2.55 * percent\<close> and
  \<open>alpha * 255\<close>, are the products of IEEE-754 double arithmetic (\<open>double_mul\<close> below),
  since the integer depends on how the product is rounded. The luminance arithmetic is
  computed in exact reals, which the doubles of the source approximate.
\<close>

type_synonym jsint = "int option"

definition is_space :: "char \<Rightarrow> bool" where
  "is_space c = (c \<in> set [CHR 0x09, CHR 0x0A, CHR 0x0B, CHR 0x0C, CHR 0x0D, CHR 0x20])"

definition digit_val :: "char \<Rightarrow> nat option" where
  "digit_val c =
     (let n = (of_char c :: nat) in
      if 48 \<le> n \<and> n \<le> 57 then Some (n - 48)
      else if 97 \<le> n \<and> n \<le> 102 then Some (n - 87)
      else if 65 \<le> n \<and> n \<le> 70 then Some (n - 55)
      else None)"

definition is_hex :: "char \<Rightarrow> bool" where
  "is_hex c = (digit_val c \<noteq> None)"

definition hexval :: "string \<Rightarrow> nat" where
  "hexval ds = foldl (\<lambda>a c. 16 * a + (case digit_val c of Some d \<Rightarrow> d | None \<Rightarrow> 0)) 0 ds"

text \<open>
  \<open>parseInt(s, 16)\<close>: leading white space is skipped, then an optional sign, then an
  optional \<open>0x\<close>/\<open>0X\<close>, then the longest run of hexadecimal digits; no digit at all gives
  \<open>NaN\<close>. (JavaScript rounds values of more than 53 bits to a double; the integer kept
  here is exact, which is what JavaScript computes for all inputs up to 13 digits.)
\<close>

definition parseInt16 :: "string \<Rightarrow> jsint" where
  "parseInt16 s =
     (let s1 = dropWhile is_space s;
          neg = (case s1 of c # _ \<Rightarrow> c = CHR ''-'' | [] \<Rightarrow> False);
          s2 = (case s1 of c # r \<Rightarrow> if c = CHR ''-'' \<or> c = CHR ''+'' then r else s1 | [] \<Rightarrow> s1);
          s3 = (case s2 of c # d # r \<Rightarrow>
                  if c = CHR ''0'' \<and> (d = CHR ''x'' \<or> d = CHR ''X'') then r else s2
                | _ \<Rightarrow> s2);
          ds = takeWhile is_hex s3
      in if ds = [] then None
         else Some (if neg then - int (hexval ds) else int (hexval ds)))"

definition ToInt32 :: "jsint \<Rightarrow> int" where
  "ToInt32 x = (case x of None \<Rightarrow> 0 | Some n \<Rightarrow> (n + 2 ^ 31) mod 2 ^ 32 - 2 ^ 31)"

text \<open>
  \<open>x >> k\<close> (sign-propagating, for the shift counts below 32 that the code uses) and
  \<open>x & y\<close>, both on the 32-bit value of the operands.
\<close>

definition js_shr :: "jsint \<Rightarrow> nat \<Rightarrow> int" where
  "js_shr x k = ToInt32 x div 2 ^ k"

definition js_and :: "jsint \<Rightarrow> int \<Rightarrow> int" where
  "js_and x y = ToInt32 x AND ToInt32 (Some y)"

definition hexchar :: "nat \<Rightarrow> char" where
  "hexchar d = ''0123456789abcdef'' ! d"

fun hexdigits :: "nat \<Rightarrow> string" where
  "hexdigits n = (if n < 16 then [hexchar n] else hexdigits (n div 16) @ [hexchar (n mod 16)])"

declare hexdigits.simps [simp del]

text \<open>\<open>Number.prototype.toString(16)\<close> on an integer: lower-case digits, a minus sign first.\<close>

definition toString16 :: "int \<Rightarrow> string" where
  "toString16 n = (if n < 0 then CHR ''-'' # hexdigits (nat (- n)) else hexdigits (nat n))"

definition slice_from :: "nat \<Rightarrow> string \<Rightarrow> string" where
  "slice_from k s = drop k s"

definition padStart :: "nat \<Rightarrow> char \<Rightarrow> string \<Rightarrow> string" where
  "padStart n c s = replicate (n - length s) c @ s"

text \<open>
  Case conversion on the ASCII letters: the upper-case and lower-case forms of a letter
  differ in bit 5 (value 32) only.
\<close>

definition upper_char :: "char \<Rightarrow> char" where
  "upper_char c =
     (let n = (of_char c :: nat) in
      if 97 \<le> n \<and> n \<le> 122
      then (case c of Char b0 b1 b2 b3 b4 b5 b6 b7 \<Rightarrow> Char b0 b1 b2 b3 b4 False b6 b7)
      else c)"

definition lower_char :: "char \<Rightarrow> char" where
  "lower_char c =
     (let n = (of_char c :: nat) in
      if 65 \<le> n \<and> n \<le> 90
      then (case c of Char b0 b1 b2 b3 b4 b5 b6 b7 \<Rightarrow> Char b0 b1 b2 b3 b4 True b6 b7)
      else c)"

definition toUpperCase :: "string \<Rightarrow> string" where
  "toUpperCase s = map upper_char s"

definition toLowerCase :: "string \<Rightarrow> string" where
  "toLowerCase s = map lower_char s"

text \<open>\<open>Math.round\<close> rounds to the nearest integer, a half towards plus infinity.\<close>

definition Math_round :: "real \<Rightarrow> int" where
  "Math_round x = \<lfloor>x + 1 / 2\<rfloor>"

text \<open>
  IEEE-754 binary64, round to nearest, ties to even. A double is an integer multiple of
  two to the power \<open>ulp_exponent\<close>: 52 below the exponent of the leading bit, and never
  below \<open>-1074\<close> (the subnormal numbers). \<open>to_double\<close> is the double nearest to a real; it is
  what a decimal literal of the source denotes, and the product of two doubles is the
  double nearest to their exact product. (Magnitudes of \<open>2 ^ 1024\<close> and more, which
  JavaScript turns into \<open>Infinity\<close>, are not treated.)
\<close>

definition round_ties_even :: "real \<Rightarrow> int" where
  "round_ties_even y =
     (let f = \<lfloor>y\<rfloor>; d = y - of_int f
      in if d < 1 / 2 then f else if 1 / 2 < d then f + 1 else if even f then f else f + 1)"

definition ulp_exponent :: "real \<Rightarrow> int" where
  "ulp_exponent x = (if x = 0 then - 1074 else max (\<lfloor>log 2 \<bar>x\<bar>\<rfloor> - 52) (- 1074))"

definition to_double :: "real \<Rightarrow> real" where
  "to_double x =
     of_int (round_ties_even (x / 2 powr of_int (ulp_exponent x))) * 2 powr of_int (ulp_exponent x)"

definition double_mul :: "real \<Rightarrow> real \<Rightarrow> real" where
  "double_mul a b = to_double (a * b)"

section \<open>The theme catalog (constants/Colors)\<close>

record Colors =
  primary :: string
  accent :: string
  background :: string
  surface :: string
  textColor :: string
  textSecondary :: string
  border :: string
  success :: string
  warning :: string
  error :: string
  tint :: string
  icon :: string
  tabIconDefault :: string
  tabIconSelected :: string

record Spacing =
  spacing_xs :: int
  spacing_sm :: int
  spacing_md :: int
  spacing_lg :: int
  spacing_xl :: int
  spacing_xxl :: int

record BorderRadius =
  radius_sm :: int
  radius_md :: int
  radius_lg :: int
  radius_xl :: int

record TextStyle =
  fontSize :: int
  fontWeight :: string
  lineHeight :: int

record Typography =
  typo_h1 :: TextStyle
  typo_h2 :: TextStyle
  typo_body :: TextStyle
  typo_caption :: TextStyle
  typo_button :: TextStyle

record ScanzyTheme =
  colors :: Colors
  spacing :: Spacing
  borderRadius :: BorderRadius
  typography :: Typography

definition themeSpacing :: Spacing where
  "themeSpacing = \<lparr>spacing_xs = 4, spacing_sm = 8, spacing_md = 16, spacing_lg = 24,
     spacing_xl = 32, spacing_xxl = 48\<rparr>"

definition themeBorderRadius :: BorderRadius where
  "themeBorderRadius = \<lparr>radius_sm = 8, radius_md = 12, radius_lg = 16, radius_xl = 24\<rparr>"

definition themeTypography :: Typography where
  "themeTypography =
     \<lparr>typo_h1 = \<lparr>fontSize = 32, fontWeight = ''bold'', lineHeight = 40\<rparr>,
      typo_h2 = \<lparr>fontSize = 24, fontWeight = ''600'', lineHeight = 32\<rparr>,
      typo_body = \<lparr>fontSize = 16, fontWeight = ''normal'', lineHeight = 24\<rparr>,
      typo_caption = \<lparr>fontSize = 12, fontWeight = ''normal'', lineHeight = 16\<rparr>,
      typo_button = \<lparr>fontSize = 16, fontWeight = ''600'', lineHeight = 20\<rparr>\<rparr>"

definition lightTheme :: ScanzyTheme where
  "lightTheme =
     \<lparr>colors =
        \<lparr>primary = ''#3F51B5'', accent = ''#00695C'', background = ''#F3F7FA'',
         surface = ''#FFFFFF'', textColor = ''#1A1A1A'', textSecondary = ''#666666'',
         border = ''#E0E0E0'', success = ''#4CAF50'', warning = ''#FF9800'',
         error = ''#F44336'', tint = ''#3F51B5'', icon = ''#666666'',
         tabIconDefault = ''#666666'', tabIconSelected = ''#3F51B5''\<rparr>,
      spacing = themeSpacing, borderRadius = themeBorderRadius, typography = themeTypography\<rparr>"

definition darkTheme :: ScanzyTheme where
  "darkTheme =
     \<lparr>colors =
        \<lparr>primary = ''#7986CB'', accent = ''#64FFDA'', background = ''#121212'',
         surface = ''#1E1E1E'', textColor = ''#FFFFFF'', textSecondary = ''#B0B0B0'',
         border = ''#333333'', success = ''#4CAF50'', warning = ''#FF9800'',
         error = ''#F44336'', tint = ''#FFFFFF'', icon = ''#B0B0B0'',
         tabIconDefault = ''#B0B0B0'', tabIconSelected = ''#FFFFFF''\<rparr>,
      spacing = themeSpacing, borderRadius = themeBorderRadius, typography = themeTypography\<rparr>"

section \<open>ThemeUtils\<close>

text \<open>A valid colour is \<open>#RRGGBB\<close>: a hash sign and six hexadecimal digits of either case.\<close>

definition valid_hex :: "string \<Rightarrow> bool" where
  "valid_hex s = (case s of c # ds \<Rightarrow> c = CHR ''#'' \<and> length ds = 6 \<and> list_all is_hex ds | [] \<Rightarrow> False)"

text \<open>The callback of \<open>[r, g, b].map\<close> in \<open>getLuminance\<close>: sRGB channel to linear light.\<close>

definition linearize :: "int \<Rightarrow> real" where
  "linearize c0 =
     (let c = real_of_int c0 / 255 in
      if c \<le> 0.03928 then c / 12.92 else ((c + 0.055) / 1.055) powr 2.4)"

text \<open>
  The first four lines of \<open>getLuminance\<close>: the three 8-bit channels of a colour string.
  They are a definition of their own because the channels of a colour are also what the
  statements about \<open>adjustBrightness\<close> read from its result.
\<close>

definition rgb_channels :: "string \<Rightarrow> int \<times> int \<times> int" where
  "rgb_channels hex =
     (let rgb = parseInt16 (slice_from 1 hex);
          r = js_and (Some (js_shr rgb 16)) 0xff;
          g = js_and (Some (js_shr rgb 8)) 0xff;
          b = js_and (Some (js_shr rgb 0)) 0xff
      in (r, g, b))"

definition getLuminance :: "string \<Rightarrow> real" where
  "getLuminance hex =
     (case rgb_channels hex of (r, g, b) \<Rightarrow>
        0.2126 * linearize r + 0.7152 * linearize g + 0.0722 * linearize b)"

definition getContrastRatio :: "string \<Rightarrow> string \<Rightarrow> real" where
  "getContrastRatio color1 color2 =
     (let lum1 = getLuminance color1;
          lum2 = getLuminance color2;
          brightest = max lum1 lum2;
          darkest = min lum1 lum2
      in (brightest + 0.05) / (darkest + 0.05))"

definition meetsAccessibilityStandards :: "string \<Rightarrow> string \<Rightarrow> bool" where
  "meetsAccessibilityStandards foreground bg = (getContrastRatio foreground bg \<ge> 4.5)"

record Validation =
  textOnBackground :: bool
  textOnSurface :: bool
  primaryOnBackground :: bool
  accentOnBackground :: bool
  textSecondaryOnBackground :: bool
  allValid :: bool

definition validateThemeAccessibility :: "ScanzyTheme \<Rightarrow> Validation" where
  "validateThemeAccessibility theme =
     (let r1 = meetsAccessibilityStandards (textColor (colors theme)) (background (colors theme));
          r2 = meetsAccessibilityStandards (textColor (colors theme)) (surface (colors theme));
          r3 = meetsAccessibilityStandards (primary (colors theme)) (background (colors theme));
          r4 = meetsAccessibilityStandards (accent (colors theme)) (background (colors theme));
          r5 = meetsAccessibilityStandards (textSecondary (colors theme)) (background (colors theme))
      in \<lparr>textOnBackground = r1, textOnSurface = r2, primaryOnBackground = r3,
          accentOnBackground = r4, textSecondaryOnBackground = r5,
          allValid = list_all (\<lambda>b. b) [r1, r2, r3, r4, r5]\<rparr>)"

definition addAlpha :: "string \<Rightarrow> real \<Rightarrow> string" where
  "addAlpha hex alpha =
     (let alphaHex =
            toUpperCase (padStart 2 (CHR ''0'') (toString16 (Math_round (double_mul alpha 255))))
      in hex @ alphaHex)"

definition clamp_channel :: "int \<Rightarrow> int" where
  "clamp_channel R = (if R < 255 then if R < 1 then 0 else R else 255)"

text \<open>
  \<open>adjustBrightness\<close> in two parts: the amount \<open>amt\<close> of its second line, the only line
  that computes with a fraction (the double product of the literal \<open>2.55\<close> and \<open>percent\<close>,
  rounded by \<open>Math.round\<close>), and the rest of the body, which is integer arithmetic on the
  channels for a given \<open>amt\<close>.
\<close>

definition adjustBrightness_from :: "string \<Rightarrow> int \<Rightarrow> string" where
  "adjustBrightness_from hex amt =
     (let num = parseInt16 (slice_from 1 hex);
          R = js_shr num 16 + amt;
          G = js_and (Some (js_shr num 8)) 0x00FF + amt;
          B = js_and num 0x0000FF + amt
      in ''#'' @ slice_from 1 (toString16
           (0x1000000 + clamp_channel R * 0x10000 + clamp_channel G * 0x100 + clamp_channel B)))"

definition adjustBrightness :: "string \<Rightarrow> real \<Rightarrow> string" where
  "adjustBrightness hex percent =
     adjustBrightness_from hex (Math_round (double_mul (to_double 2.55) percent))"

section \<open>The theme resolver (contexts/ThemeContext)\<close>

text \<open>
  JavaScript values as far as the resolver meets them: what \<open>JSON.parse\<close> can return,
  and \<open>undefined\<close>, which a property read returns for a missing property.
\<close>

datatype jsval =
    JUndefined
  | JNull
  | JBool bool
  | JNum real
  | JStr string
  | JArr "jsval list"
  | JObj "(string \<times> jsval) list"

datatype js_error = TypeError | SyntaxError | StorageError

text \<open>\<open>ToBoolean\<close>, which decides \<open>!isDark\<close> and \<open>isDark ? darkTheme : lightTheme\<close>.\<close>

fun truthy :: "jsval \<Rightarrow> bool" where
  "truthy JUndefined = False"
| "truthy JNull = False"
| "truthy (JBool b) = b"
| "truthy (JNum x) = (x \<noteq> 0)"
| "truthy (JStr s) = (s \<noteq> [])"
| "truthy (JArr _) = True"
| "truthy (JObj _) = True"

text \<open>
  The property read \<open>preference.isDark\<close>. It throws on \<open>null\<close> and \<open>undefined\<close>; an
  object gives the value of its key \<open>isDark\<close> (the last one, when \<open>JSON.parse\<close> met the key
  twice) or \<open>undefined\<close>; booleans, numbers, strings and arrays have no such property.
\<close>

fun prop_isDark :: "jsval \<Rightarrow> js_error + jsval" where
  "prop_isDark JUndefined = Inl TypeError"
| "prop_isDark JNull = Inl TypeError"
| "prop_isDark (JObj kvs) =
     Inr (case map_of (rev kvs) ''isDark'' of Some d \<Rightarrow> d | None \<Rightarrow> JUndefined)"
| "prop_isDark _ = Inr JUndefined"

text \<open>
  A value kept by \<open>AsyncStorage\<close> is a string. The resolver looks at two things only:
  whether the string is empty (\<open>if (storedPreference)\<close>) and what \<open>JSON.parse\<close> makes of
  it. A stored string is therefore represented by just that: the empty string, a
  non-empty string that \<open>JSON.parse\<close> rejects with a \<open>SyntaxError\<close>, or a string that
  \<open>JSON.parse\<close> accepts, with the value it returns.
\<close>

datatype stored = EmptyText | Malformed | WellFormed jsval

definition THEME_STORAGE_KEY :: string where
  "THEME_STORAGE_KEY = ''@scanzy_theme_preference''"

text \<open>A storage that holds nothing.\<close>

definition emptyStorage :: "string \<rightharpoonup> stored" where
  "emptyStorage = Map.empty"

text \<open>
  \<open>JSON.stringify\<close> of the \<open>ThemePreference\<close> that \<open>saveThemePreference\<close> builds, as a stored
  string: \<open>now\<close> is the ISO-8601 text that \<open>new Date()\<close> serialises to.
\<close>

definition stringify_preference :: "bool \<Rightarrow> string \<Rightarrow> stored" where
  "stringify_preference darkMode now =
     WellFormed (JObj [(''isDark'', JBool darkMode), (''lastUpdated'', JStr now)])"

text \<open>What \<open>useColorScheme()\<close> reports.\<close>

datatype ColorSchemeName = SchemeLight | SchemeDark | SchemeNull | SchemeUndefined

text \<open>How the \<open>getItem\<close> promise settles: rejected, or resolved with \<open>null\<close> or a string.\<close>

datatype read_result = ReadRejected | ReadResolved "stored option"

datatype load_phase = ReadPending | ReadSettled read_result | LoadFinished

text \<open>
  The provider with its surroundings: the two React state cells, the \<open>isDark\<close> that the
  latest render read from its cell (the constant \<open>isDark\<close> inside the closures which that
  render created, \<open>toggleTheme\<close> among them), the storage, the progress of the one
  \<open>loadThemePreference\<close> call started on mount, the \<open>setItem\<close> calls that have been issued
  and not yet settled, and the console warnings.
\<close>

record resolver =
  isDark :: jsval
  isLoading :: bool
  renderedIsDark :: jsval
  store :: "string \<rightharpoonup> stored"
  load :: load_phase
  writes :: "(string \<times> stored) list"
  warnings :: "string list"

text \<open>
  Mount: the two \<open>useState\<close> initial values, read by the first render; the effect calls
  \<open>getItem\<close>.
\<close>

definition mount :: "ColorSchemeName \<Rightarrow> (string \<rightharpoonup> stored) \<Rightarrow> resolver" where
  "mount systemColorScheme st =
     \<lparr>isDark = JBool (systemColorScheme = SchemeDark), isLoading = True,
      renderedIsDark = JBool (systemColorScheme = SchemeDark), store = st,
      load = ReadPending, writes = [], warnings = []\<rparr>"

text \<open>
  \<open>loadThemePreference\<close> from the point where the awaited \<open>getItem\<close> has settled. The
  \<open>try\<close> block either reaches a \<open>setIsDark\<close> or throws; \<open>catch\<close> warns and falls back to
  the system preference; \<open>finally\<close> clears \<open>isLoading\<close>.
\<close>

definition loadThemePreference_try :: "ColorSchemeName \<Rightarrow> read_result \<Rightarrow> js_error + jsval" where
  "loadThemePreference_try systemColorScheme r =
     (case r of
        ReadRejected \<Rightarrow> Inl StorageError
      | ReadResolved None \<Rightarrow> Inr (JBool (systemColorScheme = SchemeDark))
      | ReadResolved (Some EmptyText) \<Rightarrow> Inr (JBool (systemColorScheme = SchemeDark))
      | ReadResolved (Some Malformed) \<Rightarrow> Inl SyntaxError
      | ReadResolved (Some (WellFormed preference)) \<Rightarrow> prop_isDark preference)"

definition loadThemePreference :: "ColorSchemeName \<Rightarrow> read_result \<Rightarrow> resolver \<Rightarrow> resolver" where
  "loadThemePreference systemColorScheme r s =
     (case loadThemePreference_try systemColorScheme r of
        Inr d \<Rightarrow> s\<lparr>isDark := d, isLoading := False\<rparr>
      | Inl e \<Rightarrow>
          s\<lparr>isDark := JBool (systemColorScheme = SchemeDark), isLoading := False,
            warnings := warnings s @ [''Failed to load theme preference:'']\<rparr>)"

text \<open>\<open>saveThemePreference\<close> up to its \<open>await\<close>: the \<open>setItem\<close> call is issued.\<close>

definition saveThemePreference :: "bool \<Rightarrow> string \<Rightarrow> resolver \<Rightarrow> resolver" where
  "saveThemePreference darkMode now s =
     s\<lparr>writes := writes s @ [(THEME_STORAGE_KEY, stringify_preference darkMode now)]\<rparr>"

text \<open>
  \<open>toggleTheme\<close> is a closure of a render: the \<open>isDark\<close> that it negates is the constant of
  that render, its first argument here, not the state cell. \<open>setIsDark\<close> is called with
  the value, which replaces whatever the cell holds.
\<close>

definition toggleTheme :: "jsval \<Rightarrow> string \<Rightarrow> resolver \<Rightarrow> resolver" where
  "toggleTheme capturedIsDark now s =
     (let newIsDark = \<not> truthy capturedIsDark
      in saveThemePreference newIsDark now (s\<lparr>isDark := JBool newIsDark\<rparr>))"

text \<open>
  What happens to the provider, one event at a time.
  \<^item> \<open>Render\<close>: React renders the component again; the closures of the new render
    capture the \<open>isDark\<close> that the cell holds now. React renders after a state update,
    but not before the handler that made the update has returned: calls made by one
    handler come from one render.
  \<^item> \<open>Toggle now\<close>: a consumer calls the \<open>toggleTheme\<close> of the latest render while the
    clock reads \<open>now\<close>.
  \<^item> \<open>GetItemSettles ok\<close>: the storage answers the pending \<open>getItem\<close>, with the value
    it holds at that moment or, when \<open>ok\<close> is false, with a rejection.
  \<^item> \<open>LoadResumes\<close>: \<open>loadThemePreference\<close> continues after its \<open>await\<close>.
  \<^item> \<open>SetItemSettles i ok\<close>: the storage settles the \<open>i\<close>-th pending \<open>setItem\<close>, in any
    order: it performs the write or, when \<open>ok\<close> is false, rejects it, and
    \<open>saveThemePreference\<close> warns in its \<open>catch\<close>.
  An event that is not possible in a state leaves it unchanged. The first argument of
  \<open>step\<close> is the colour scheme reported at mount: \<open>loadThemePreference\<close> is the closure of
  the first render (the effect has no dependencies), so that is the value it falls back
  to.
\<close>

datatype event =
    Render
  | Toggle string
  | GetItemSettles bool
  | LoadResumes
  | SetItemSettles nat bool

fun step :: "ColorSchemeName \<Rightarrow> event \<Rightarrow> resolver \<Rightarrow> resolver" where
  "step sys Render s = s\<lparr>renderedIsDark := isDark s\<rparr>"
| "step sys (Toggle now) s = toggleTheme (renderedIsDark s) now s"
| "step sys (GetItemSettles ok) s =
     (if load s = ReadPending
      then s\<lparr>load := ReadSettled
                (if ok then ReadResolved (store s THEME_STORAGE_KEY) else ReadRejected)\<rparr>
      else s)"
| "step sys LoadResumes s =
     (case load s of
        ReadSettled r \<Rightarrow> (loadThemePreference sys r s)\<lparr>load := LoadFinished\<rparr>
      | _ \<Rightarrow> s)"
| "step sys (SetItemSettles i ok) s =
     (if i < length (writes s)
      then (let w = writes s ! i;
                s' = s\<lparr>writes := take i (writes s) @ drop (Suc i) (writes s)\<rparr>
            in if ok then s'\<lparr>store := (store s)(fst w \<mapsto> snd w)\<rparr>
               else s'\<lparr>warnings := warnings s @ [''Failed to save theme preference:'']\<rparr>)
      else s)"

fun run :: "ColorSchemeName \<Rightarrow> resolver \<Rightarrow> event list \<Rightarrow> resolver" where
  "run sys s [] = s"
| "run sys s (e # es) = run sys (step sys e s) es"

text \<open>The states a run passes through, the first one included.\<close>

fun trace :: "ColorSchemeName \<Rightarrow> resolver \<Rightarrow> event list \<Rightarrow> resolver list" where
  "trace sys s [] = [s]"
| "trace sys s (e # es) = s # trace sys (step sys e s) es"

text \<open>
  The value that a render in state \<open>s\<close> hands to consumers (its \<open>toggleTheme\<close> is the event
  above).
\<close>

record ThemeContextType =
  theme :: ScanzyTheme
  ctx_isDark :: jsval
  ctx_isLoading :: bool

definition contextValue :: "resolver \<Rightarrow> ThemeContextType" where
  "contextValue s =
     \<lparr>theme = (if truthy (isDark s) then darkTheme else lightTheme),
      ctx_isDark = isDark s, ctx_isLoading = isLoading s\<rparr>"

text \<open>The events that can come between the answer of the storage and the end of the load.\<close>

fun is_render_toggle_or_write :: "event \<Rightarrow> bool" where
  "is_render_toggle_or_write Render = True"
| "is_render_toggle_or_write (Toggle _) = True"
| "is_render_toggle_or_write (SetItemSettles _ _) = True"
| "is_render_toggle_or_write _ = False"

text \<open>
  The link between the loading flag and the progress of the load, which every reachable
  state satisfies: \<open>isLoading\<close> is true exactly until the load has finished.
\<close>

definition loading_inv :: "resolver \<Rightarrow> bool" where
  "loading_inv s = (isLoading s = (load s \<noteq> LoadFinished))"

section \<open>Hexadecimal digits: parsing and printing\<close>

lemma digit_val_lt: "digit_val c = Some d \<Longrightarrow> d < 16"
  by (auto simp: digit_val_def Let_def split: if_splits)

lemma nat_lt_16_cases:
  "(d::nat) < 16 \<Longrightarrow> d = 0 \<or> d = 1 \<or> d = 2 \<or> d = 3 \<or> d = 4 \<or> d = 5 \<or> d = 6 \<or> d = 7 \<or>
     d = 8 \<or> d = 9 \<or> d = 10 \<or> d = 11 \<or> d = 12 \<or> d = 13 \<or> d = 14 \<or> d = 15"
  by (simp add: numeral_eq_Suc less_Suc_eq)

lemma digit_val_hexchar: "d < 16 \<Longrightarrow> digit_val (hexchar d) = Some d"
  by (drule nat_lt_16_cases) (auto simp: digit_val_def hexchar_def)

lemma is_hex_not_prefix:
  "is_hex c \<Longrightarrow> \<not> is_space c \<and> c \<noteq> CHR ''-'' \<and> c \<noteq> CHR ''+'' \<and> c \<noteq> CHR ''x'' \<and> c \<noteq> CHR ''X''"
  by (auto simp: is_hex_def is_space_def digit_val_def)

lemma hexval_snoc:
  "hexval (ds @ [c]) = 16 * hexval ds + (case digit_val c of Some d \<Rightarrow> d | None \<Rightarrow> 0)"
  by (simp add: hexval_def)


lemma hexchar_digit_val: "digit_val c = Some d \<Longrightarrow> hexchar d = lower_char c"
proof (cases c)
  case (Char b0 b1 b2 b3 b4 b5 b6 b7)
  assume "digit_val c = Some d"
  then show ?thesis unfolding Char
    by (cases b0; cases b1; cases b2; cases b3; cases b4; cases b5; cases b6; cases b7)
       (simp_all add: digit_val_def hexchar_def lower_char_def)
qed

lemma hexval_bound: "list_all is_hex ds \<Longrightarrow> hexval ds < 16 ^ length ds"
proof (induction ds rule: rev_induct)
  case Nil
  then show ?case by (simp add: hexval_def)
next
  case (snoc c ds)
  then obtain d where d: "digit_val c = Some d" by (auto simp: is_hex_def)
  then have "d < 16" by (rule digit_val_lt)
  moreover have "hexval ds < 16 ^ length ds" using snoc by simp
  ultimately show ?case by (simp add: hexval_snoc d)
qed

lemma hexdigits_step: "1 \<le> m \<Longrightarrow> d < 16 \<Longrightarrow> hexdigits (16 * m + d) = hexdigits m @ [hexchar d]"
proof -
  assume m: "1 \<le> m" and d: "d < 16"
  have "\<not> 16 * m + d < 16" using m by simp
  moreover have "(16 * m + d) div 16 = m" using d by simp
  moreover have "(16 * m + d) mod 16 = d" using d by simp
  ultimately show ?thesis by (subst hexdigits.simps) simp
qed

lemma hexdigits_of_digits:
  "list_all is_hex ds \<Longrightarrow> hexdigits (16 ^ length ds + hexval ds) = CHR ''1'' # map lower_char ds"
proof (induction ds rule: rev_induct)
  case Nil
  then show ?case by (simp add: hexval_def hexchar_def hexdigits.simps)
next
  case (snoc c ds)
  then obtain d where d: "digit_val c = Some d" by (auto simp: is_hex_def)
  have dl: "d < 16" using d by (rule digit_val_lt)
  have ih: "hexdigits (16 ^ length ds + hexval ds) = CHR ''1'' # map lower_char ds"
    using snoc by simp
  have e: "16 ^ length (ds @ [c]) + hexval (ds @ [c]) = 16 * (16 ^ length ds + hexval ds) + d"
    by (simp add: hexval_snoc d)
  have "1 \<le> (16::nat) ^ length ds" by simp
  then have m: "1 \<le> (16::nat) ^ length ds + hexval ds" by linarith
  show ?case
    unfolding e hexdigits_step [OF m dl] ih using hexchar_digit_val [OF d] by simp
qed

lemma parseInt16_digits:
  "ds \<noteq> [] \<Longrightarrow> list_all is_hex ds \<Longrightarrow> parseInt16 ds = Some (int (hexval ds))"
proof -
  assume ne: "ds \<noteq> []" and hx: "list_all is_hex ds"
  obtain c r where ds: "ds = c # r" using ne by (cases ds) auto
  have c: "is_hex c" using hx ds by simp
  note p = is_hex_not_prefix [OF c]
  have s1: "dropWhile is_space ds = ds" using p ds by simp
  have s3: "(case ds of c # d # r \<Rightarrow>
                  if c = CHR ''0'' \<and> (d = CHR ''x'' \<or> d = CHR ''X'') then r else ds
                | _ \<Rightarrow> ds) = ds"
  proof (cases r)
    case Nil then show ?thesis using ds by simp
  next
    case (Cons d r')
    then have "is_hex d" using hx ds by simp
    then show ?thesis using is_hex_not_prefix [of d] ds Cons by simp
  qed
  have tw: "takeWhile is_hex ds = ds" using hx by (simp add: list_all_iff)
  have s2: "(case ds of c # r \<Rightarrow> if c = CHR ''-'' \<or> c = CHR ''+'' then r else ds | [] \<Rightarrow> ds) = ds"
    using p ds by simp
  have ng: "(case ds of c # _ \<Rightarrow> c = CHR ''-'' | [] \<Rightarrow> False) = False"
    using p ds by simp
  show ?thesis
    unfolding parseInt16_def Let_def s1 s2 s3 tw ng using ne by simp
qed


lemma and_255: "(x::int) AND 255 = x mod 256"
  using take_bit_eq_mask [of 8 x] by (simp add: take_bit_eq_mod mask_eq_exp_minus_1)

lemma ToInt32_small: "0 \<le> n \<Longrightarrow> n < 2 ^ 31 \<Longrightarrow> ToInt32 (Some n) = n"
  by (simp add: ToInt32_def)

lemma js_and_255: "0 \<le> n \<Longrightarrow> n < 2 ^ 31 \<Longrightarrow> js_and (Some n) 255 = n mod 256"
  by (simp add: js_and_def ToInt32_small and_255)

lemma js_shr_small: "0 \<le> n \<Longrightarrow> n < 2 ^ 31 \<Longrightarrow> js_shr (Some n) k = n div 2 ^ k"
  by (simp add: js_shr_def ToInt32_small)

lemma rgb_channels_valid:
  assumes "valid_hex hex"
  shows "rgb_channels hex =
           (int (hexval (tl hex)) div 65536, int (hexval (tl hex)) div 256 mod 256,
            int (hexval (tl hex)) mod 256)"
proof -
  obtain ds where hex: "hex = CHR ''#'' # ds" and len: "length ds = 6" and hx: "list_all is_hex ds"
    using assms by (auto simp: valid_hex_def split: list.splits)
  define n where "n = int (hexval ds)"
  have "hexval ds < 16 ^ 6" using hexval_bound [OF hx] len by simp
  then have n: "0 \<le> n" "n < 16777216" by (simp_all add: n_def)
  have ne: "ds \<noteq> []" using len by auto
  have p: "parseInt16 (slice_from 1 hex) = Some n"
    using parseInt16_digits [OF ne hx] by (simp add: hex slice_from_def n_def)
  have s16: "js_shr (Some n) 16 = n div 65536" using n by (simp add: js_shr_small)
  have s8: "js_shr (Some n) 8 = n div 256" using n by (simp add: js_shr_small)
  have s0: "js_shr (Some n) 0 = n" using n by (simp add: js_shr_small)
  have b16: "0 \<le> n div 65536" "n div 65536 < 256" using n by simp_all
  have b8: "0 \<le> n div 256" "n div 256 < 2 ^ 31" using n by simp_all
  have a16: "js_and (Some (n div 65536)) 255 = n div 65536"
    using b16 by (simp add: js_and_255)
  have a8: "js_and (Some (n div 256)) 255 = n div 256 mod 256"
    using b8 by (simp add: js_and_255)
  have a0: "js_and (Some n) 255 = n mod 256"
    using n by (simp add: js_and_255)
  show ?thesis
    unfolding rgb_channels_def Let_def p s16 s8 s0 a16 a8 a0 by (simp add: hex n_def)
qed


lemma clamp_channel_range: "0 \<le> clamp_channel x \<and> clamp_channel x \<le> 255"
  by (simp add: clamp_channel_def)

lemma clamp_channel_id: "0 \<le> x \<Longrightarrow> x \<le> 255 \<Longrightarrow> clamp_channel x = x"
  by (simp add: clamp_channel_def)

lemma hexdigits_pad:
  "m < 16 ^ k \<Longrightarrow>
     \<exists>ds. hexdigits (16 ^ k + m) = CHR ''1'' # ds \<and> length ds = k \<and> list_all is_hex ds \<and> hexval ds = m"
proof (induction k arbitrary: m)
  case 0
  then show ?case by (simp add: hexval_def hexchar_def hexdigits.simps)
next
  case (Suc k)
  define q where "q = m div 16"
  define d where "d = m mod 16"
  have m: "m = 16 * q + d" and d: "d < 16" by (simp_all add: q_def d_def)
  have "q < 16 ^ k" using Suc.prems by (simp add: q_def less_mult_imp_div_less mult.commute)
  then obtain ds where ds: "hexdigits (16 ^ k + q) = CHR ''1'' # ds" "length ds = k"
      "list_all is_hex ds" "hexval ds = q"
    using Suc.IH by blast
  have e: "16 ^ Suc k + m = 16 * (16 ^ k + q) + d" by (simp add: m)
  have "1 \<le> (16::nat) ^ k" by simp
  then have one: "1 \<le> (16::nat) ^ k + q" by linarith
  have "hexdigits (16 ^ Suc k + m) = CHR ''1'' # (ds @ [hexchar d])"
    unfolding e hexdigits_step [OF one d] ds by simp
  moreover have "list_all is_hex (ds @ [hexchar d])"
    using ds digit_val_hexchar [OF d] by (simp add: is_hex_def)
  moreover have "hexval (ds @ [hexchar d]) = m"
    using ds digit_val_hexchar [OF d] by (simp add: hexval_snoc m)
  ultimately show ?case using ds by auto
qed

lemma adjustBrightness_from_valid:
  assumes "valid_hex hex"
  shows "case rgb_channels hex of (r, g, b) \<Rightarrow>
           adjustBrightness_from hex amt =
             CHR ''#'' # tl (hexdigits (16 ^ 6 +
               nat (clamp_channel (r + amt) * 65536 +
                    clamp_channel (g + amt) * 256 +
                    clamp_channel (b + amt))))"
proof -
  obtain ds where hex: "hex = CHR ''#'' # ds" and len: "length ds = 6" and hx: "list_all is_hex ds"
    using assms by (auto simp: valid_hex_def split: list.splits)
  define n where "n = int (hexval ds)"
  have "hexval ds < 16 ^ 6" using hexval_bound [OF hx] len by simp
  then have n: "0 \<le> n" "n < 16777216" by (simp_all add: n_def)
  have ne: "ds \<noteq> []" using len by auto
  have p: "parseInt16 (slice_from 1 hex) = Some n"
    using parseInt16_digits [OF ne hx] by (simp add: hex slice_from_def n_def)
  have s16: "js_shr (Some n) 16 = n div 65536" using n by (simp add: js_shr_small)
  have s8: "js_shr (Some n) 8 = n div 256" using n by (simp add: js_shr_small)
  have b8: "0 \<le> n div 256" "n div 256 < 2 ^ 31" using n by simp_all
  have a8: "js_and (Some (n div 256)) 255 = n div 256 mod 256"
    using b8 by (simp add: js_and_255)
  have a0: "js_and (Some n) 255 = n mod 256"
    using n by (simp add: js_and_255)
  define v where "v = clamp_channel (n div 65536 + amt) * 65536 +
                    clamp_channel (n div 256 mod 256 + amt) * 256 +
                    clamp_channel (n mod 256 + amt)"
  have v0: "0 \<le> v"
    using clamp_channel_range [of "n div 65536 + amt"] clamp_channel_range [of "n div 256 mod 256 + amt"]
      clamp_channel_range [of "n mod 256 + amt"] by (simp add: v_def)
  have ts: "toString16 (16777216 + v) = hexdigits (16 ^ 6 + nat v)"
    using v0 by (simp add: toString16_def nat_add_distrib)
  have assoc: "16777216 + clamp_channel (n div 65536 + amt) * 65536 +
                 clamp_channel (n div 256 mod 256 + amt) * 256 +
                 clamp_channel (n mod 256 + amt) = 16777216 + v"
    by (simp add: v_def)
  have "adjustBrightness_from hex amt = CHR ''#'' # tl (hexdigits (16 ^ 6 + nat v))"
    unfolding adjustBrightness_from_def Let_def p s16 s8 a8 a0
    by (simp only: assoc ts slice_from_def drop_Suc drop_0 append_Cons append_Nil
          numeral_eq_Suc One_nat_def) 
  then show ?thesis
    using rgb_channels_valid [OF assms] by (simp add: hex n_def v_def)
qed

section \<open>Double products\<close>

lemma round_ties_even_cases:
  "round_ties_even y = \<lfloor>y\<rfloor> \<and> y - of_int \<lfloor>y\<rfloor> \<le> 1 / 2 \<or>
   round_ties_even y = \<lfloor>y\<rfloor> + 1 \<and> 1 / 2 \<le> y - of_int \<lfloor>y\<rfloor>"
  by (auto simp: round_ties_even_def Let_def)

lemma round_ties_even_error: "\<bar>of_int (round_ties_even y) - y\<bar> \<le> 1 / 2"
proof -
  have a: "of_int \<lfloor>y\<rfloor> \<le> y" "y < of_int \<lfloor>y\<rfloor> + 1" by linarith+
  show ?thesis using round_ties_even_cases [of y] a by (auto simp: abs_le_iff)
qed

lemma round_ties_even_of_int: "round_ties_even (of_int n) = n"
  by (simp add: round_ties_even_def)

lemma round_ties_even_nonneg: "0 \<le> y \<Longrightarrow> 0 \<le> round_ties_even y"
proof -
  assume "0 \<le> y"
  then have "0 \<le> \<lfloor>y\<rfloor>" by simp
  then show ?thesis using round_ties_even_cases [of y] by auto
qed

lemma round_ties_even_le: "y \<le> of_int n \<Longrightarrow> round_ties_even y \<le> n"
proof -
  assume h: "y \<le> of_int n"
  show ?thesis
  proof (cases "y = of_int n")
    case True
    then show ?thesis by (simp add: round_ties_even_of_int)
  next
    case False
    then have "y < of_int n" using h by simp
    then have "\<lfloor>y\<rfloor> < n" by (simp add: floor_less_iff)
    then show ?thesis using round_ties_even_cases [of y] by auto
  qed
qed

lemma to_double_zero: "to_double 0 = 0"
  by (simp add: to_double_def round_ties_even_def)

lemma to_double_error: "\<bar>to_double x - x\<bar> \<le> 2 powr of_int (ulp_exponent x) / 2"
proof -
  define u :: real where "u = 2 powr of_int (ulp_exponent x)"
  have u: "0 < u" by (simp add: u_def)
  have "to_double x - x = u * (of_int (round_ties_even (x / u)) - x / u)"
    using u by (simp add: to_double_def u_def algebra_simps)
  then have "\<bar>to_double x - x\<bar> = u * \<bar>of_int (round_ties_even (x / u)) - x / u\<bar>"
    using u by (simp add: abs_mult)
  also have "\<dots> \<le> u * (1 / 2)"
    using round_ties_even_error [of "x / u"] u by (intro mult_left_mono) simp_all
  finally show ?thesis by (simp add: u_def)
qed

lemma ulp_exponent_eq:
  assumes "2 powr of_int e \<le> \<bar>x\<bar>" "\<bar>x\<bar> < 2 powr of_int (e + 1)" "- 1022 \<le> e"
  shows "ulp_exponent x = e - 52"
proof -
  have pos: "0 < \<bar>x\<bar>" using assms(1) by (smt (verit) powr_gt_zero)
  have "\<lfloor>log 2 \<bar>x\<bar>\<rfloor> = e"
    using assms(1,2) pos by (simp add: floor_log_eq_powr_iff)
  then show ?thesis using pos assms(3) by (simp add: ulp_exponent_def)
qed

lemma ulp_exponent_le:
  assumes "\<bar>x\<bar> < 2 powr of_int n" "- 1021 \<le> n"
  shows "ulp_exponent x \<le> n - 53"
proof (cases "x = 0")
  case True
  then show ?thesis using assms(2) by (simp add: ulp_exponent_def)
next
  case False
  then have pos: "0 < \<bar>x\<bar>" by simp
  have "log 2 \<bar>x\<bar> < of_int n" using assms(1) pos by (simp add: log_less_iff)
  then have "\<lfloor>log 2 \<bar>x\<bar>\<rfloor> < n" by (simp add: floor_less_iff)
  then show ?thesis using False assms(2) by (simp add: ulp_exponent_def)
qed


lemma to_double_eq:
  assumes "2 powr of_int e \<le> \<bar>x\<bar>" "\<bar>x\<bar> < 2 powr of_int (e + 1)" "- 1022 \<le> e"
  shows "to_double x =
           of_int (round_ties_even (x / 2 powr of_int (e - 52))) * 2 powr of_int (e - 52)"
  unfolding to_double_def ulp_exponent_eq [OF assms] ..

lemma two_powr_neg: "k \<le> 0 \<Longrightarrow> (2::real) powr of_int k = 1 / 2 ^ nat (- k)"
  by (simp add: powr_int)

lemma to_double_range:
  assumes "0 \<le> x" "x \<le> 255"
  shows "0 \<le> to_double x \<and> to_double x \<le> 255"
proof -
  define k where "k = ulp_exponent x"
  have "\<bar>x\<bar> < 2 powr of_int 8" using assms by simp
  then have "k \<le> 8 - 53" unfolding k_def by (rule ulp_exponent_le) simp
  then have k: "k \<le> 0" by simp
  define u :: real where "u = 2 powr of_int k"
  have u: "0 < u" by (simp add: u_def)
  have u': "u = 1 / 2 ^ nat (- k)" unfolding u_def by (rule two_powr_neg [OF k])
  have td: "to_double x = of_int (round_ties_even (x / u)) * u"
    by (simp add: to_double_def u_def k_def)
  have "0 \<le> x / u" using assms(1) u by simp
  then have "0 \<le> round_ties_even (x / u)" by (rule round_ties_even_nonneg)
  then have lo: "0 \<le> to_double x" using u by (simp add: td)
  have "x / u \<le> 255 / u" using assms(2) u by (simp add: divide_right_mono)
  also have "255 / u = of_int (255 * 2 ^ nat (- k))" by (simp add: u')
  finally have "round_ties_even (x / u) \<le> 255 * 2 ^ nat (- k)" by (rule round_ties_even_le)
  then have "of_int (round_ties_even (x / u)) \<le> (of_int (255 * 2 ^ nat (- k)) :: real)"
    by (simp only: of_int_le_iff)
  then have "of_int (round_ties_even (x / u)) * u \<le> of_int (255 * 2 ^ nat (- k)) * u"
    using u by (intro mult_right_mono) simp_all
  also have "of_int (255 * 2 ^ nat (- k)) * u = 255" by (simp add: u')
  finally show ?thesis using lo by (simp add: td)
qed

lemma to_double_error_small:
  assumes "\<bar>x\<bar> < 256"
  shows "\<bar>to_double x - x\<bar> \<le> 1 / 2 ^ 46"
proof -
  have "\<bar>x\<bar> < 2 powr of_int 8" using assms by simp
  then have "ulp_exponent x \<le> 8 - 53" by (rule ulp_exponent_le) simp
  then have "(2::real) powr of_int (ulp_exponent x) \<le> 2 powr of_int (- 45)"
    by (intro powr_mono) simp_all
  also have "(2::real) powr of_int (- 45) = 1 / 2 ^ 45" using two_powr_neg [of "- 45"] by simp
  finally have "(2::real) powr of_int (ulp_exponent x) / 2 \<le> 1 / 2 ^ 45 / 2" by simp
  also have "1 / 2 ^ 45 / 2 = (1::real) / 2 ^ 46" by simp
  finally show ?thesis using to_double_error [of x] by linarith
qed

lemma Math_round_error: "\<bar>of_int (Math_round z) - z\<bar> \<le> 1 / 2"
  unfolding Math_round_def by linarith

lemma to_double_2_55: "to_double 2.55 = 2871044762448691 / 2 ^ 50"
proof -
  have "to_double 2.55 =
          of_int (round_ties_even (2.55 / 2 powr of_int (1 - 52))) * 2 powr of_int (1 - 52)"
    by (rule to_double_eq) simp_all
  also have "(2::real) powr of_int (1 - 52) = 1 / 2 ^ 51" using two_powr_neg [of "- 51"] by simp
  also have "round_ties_even (2.55 / (1 / 2 ^ 51)) = 5742089524897382"
    by (simp add: round_ties_even_def Let_def)
  finally show ?thesis by simp
qed


lemma to_double_nat:
  assumes "2 ^ n \<le> \<bar>x\<bar>" "\<bar>x\<bar> < 2 * 2 ^ n" "n \<le> 52"
  shows "to_double x = of_int (round_ties_even (x * 2 ^ (52 - n))) / 2 ^ (52 - n)"
proof -
  have p: "(2::real) powr real n = 2 ^ n" by (simp add: powr_realpow)
  have p1: "(2::real) powr (real n + 1) = 2 * 2 ^ n" by (simp add: powr_add p)
  have "to_double x =
          of_int (round_ties_even (x / 2 powr of_int (int n - 52))) * 2 powr of_int (int n - 52)"
    by (rule to_double_eq) (simp_all add: p p1 assms)
  moreover have "(2::real) powr of_int (int n - 52) = 1 / 2 ^ (52 - n)"
    using two_powr_neg [of "int n - 52"] assms(3) by (simp add: nat_diff_distrib')
  ultimately show ?thesis by simp
qed

lemma amt_at_50: "Math_round (double_mul (to_double 2.55) 50) = 127"
proof -
  have "to_double (2871044762448691 / 2 ^ 50 * 50) =
          of_int (round_ties_even (2871044762448691 / 2 ^ 50 * 50 * 2 ^ (52 - 6))) / 2 ^ (52 - 6)"
    by (rule to_double_nat) simp_all
  also have "round_ties_even (2871044762448691 / 2 ^ 50 * 50 * 2 ^ (52 - 6)) = 8972014882652159"
    by (simp add: round_ties_even_def Let_def)
  finally have a: "to_double (2871044762448691 / 2 ^ 50 * 50) = 8972014882652159 / 2 ^ (52 - 6)" by simp
  show ?thesis unfolding double_mul_def to_double_2_55 a Math_round_def by simp
qed

lemma amt_at_90: "Math_round (double_mul (to_double 2.55) 90) = 229"
proof -
  have "to_double (2871044762448691 / 2 ^ 50 * 90) =
          of_int (round_ties_even (2871044762448691 / 2 ^ 50 * 90 * 2 ^ (52 - 7))) / 2 ^ (52 - 7)"
    by (rule to_double_nat) simp_all
  also have "round_ties_even (2871044762448691 / 2 ^ 50 * 90 * 2 ^ (52 - 7)) = 8074813394386943"
    by (simp add: round_ties_even_def Let_def)
  finally have a: "to_double (2871044762448691 / 2 ^ 50 * 90) = 8074813394386943 / 2 ^ (52 - 7)"
    by simp
  show ?thesis unfolding double_mul_def to_double_2_55 a Math_round_def by simp
qed

lemma amt_at_minus_100: "Math_round (double_mul (to_double 2.55) (- 100)) = - 255"
proof -
  have "to_double (2871044762448691 / 2 ^ 50 * (- 100)) =
          of_int (round_ties_even (2871044762448691 / 2 ^ 50 * (- 100) * 2 ^ (52 - 7))) / 2 ^ (52 - 7)"
    by (rule to_double_nat) simp_all
  also have "round_ties_even (2871044762448691 / 2 ^ 50 * (- 100) * 2 ^ (52 - 7)) = - 8972014882652159"
    by (simp add: round_ties_even_def Let_def)
  finally have a: "to_double (2871044762448691 / 2 ^ 50 * (- 100)) = - 8972014882652159 / 2 ^ (52 - 7)"
    by simp
  show ?thesis unfolding double_mul_def to_double_2_55 a Math_round_def by simp
qed

lemma amt_error:
  assumes "- 100 \<le> percent" "percent \<le> 100"
  shows "\<bar>of_int (Math_round (double_mul (to_double 2.55) percent)) - 2.55 * percent\<bar> \<le> 1 / 2 + 1 / 2 ^ 44"
proof -
  define c :: real where "c = 2871044762448691 / 2 ^ 50"
  have c: "to_double 2.55 = c" unfolding c_def by (rule to_double_2_55)
  have ap: "\<bar>percent\<bar> \<le> 100" using assms by linarith
  have d: "\<bar>c - 2.55\<bar> = 1 / (5 * 2 ^ 50)" by (simp add: c_def)
  have "\<bar>c * percent - 2.55 * percent\<bar> = \<bar>c - 2.55\<bar> * \<bar>percent\<bar>"
    by (simp add: abs_mult [symmetric] algebra_simps)
  also have "\<dots> \<le> 1 / (5 * 2 ^ 50) * 100" unfolding d using ap by (intro mult_left_mono) simp_all
  finally have e1: "\<bar>c * percent - 2.55 * percent\<bar> \<le> 20 / 2 ^ 50" by simp
  have "\<bar>c * percent\<bar> = c * \<bar>percent\<bar>" by (simp add: abs_mult c_def)
  also have "\<dots> \<le> c * 100" using ap by (intro mult_left_mono) (simp_all add: c_def)
  also have "\<dots> < 256" by (simp add: c_def)
  finally have e2: "\<bar>to_double (c * percent) - c * percent\<bar> \<le> 1 / 2 ^ 46"
    by (rule to_double_error_small)
  have e3: "\<bar>of_int (Math_round (to_double (c * percent))) - to_double (c * percent)\<bar> \<le> 1 / 2"
    by (rule Math_round_error)
  have "(20::real) / 2 ^ 50 + 1 / 2 ^ 46 \<le> 1 / 2 ^ 44" by simp
  then show ?thesis unfolding double_mul_def c using e1 e2 e3 by linarith
qed

lemma alpha_round_error:
  assumes "0 \<le> alpha" "alpha \<le> 1"
  shows "\<bar>of_int (Math_round (double_mul alpha 255)) - alpha * 255\<bar> \<le> 1 / 2 + 1 / 2 ^ 46"
proof -
  have "\<bar>alpha * 255\<bar> < 256" using assms by simp
  then have e2: "\<bar>to_double (alpha * 255) - alpha * 255\<bar> \<le> 1 / 2 ^ 46"
    by (rule to_double_error_small)
  have e3: "\<bar>of_int (Math_round (to_double (alpha * 255))) - to_double (alpha * 255)\<bar> \<le> 1 / 2"
    by (rule Math_round_error)
  show ?thesis unfolding double_mul_def using e2 e3 by linarith
qed

lemma to_double_exact:
  assumes "2 ^ n \<le> \<bar>x\<bar>" "\<bar>x\<bar> < 2 * 2 ^ n" "n \<le> 52" "x * 2 ^ (52 - n) = of_int m"
  shows "to_double x = x"
proof -
  have "to_double x = of_int (round_ties_even (x * 2 ^ (52 - n))) / 2 ^ (52 - n)"
    by (rule to_double_nat [OF assms(1-3)])
  also have "\<dots> = of_int m / 2 ^ (52 - n)" by (simp add: assms(4) round_ties_even_of_int)
  also have "\<dots> = x" using assms(4) [symmetric] by simp
  finally show ?thesis .
qed

lemma amt_zero: "Math_round (double_mul c 0) = 0"
  by (simp add: double_mul_def to_double_zero Math_round_def)

lemma double_mul_zero: "double_mul a 0 = 0" "double_mul 0 b = 0"
  by (simp_all add: double_mul_def to_double_zero)

lemma double_mul_1_255: "double_mul 1 255 = 255"
proof -
  have "to_double 255 = 255" by (rule to_double_exact [of 7 _ "255 * 2 ^ 45"]) simp_all
  then show ?thesis by (simp add: double_mul_def)
qed

lemma double_mul_half_255: "double_mul (1 / 2) 255 = 255 / 2"
proof -
  have "to_double (255 / 2) = 255 / 2"
    by (rule to_double_exact [of 6 _ "255 * 2 ^ 45"]) simp_all
  then show ?thesis by (simp add: double_mul_def)
qed

lemma alpha_suffix_at_double_0_3: "Math_round (double_mul (5404319552844595 / 2 ^ 54) 255) = 77"
proof -
  have "to_double (5404319552844595 / 2 ^ 54 * 255) =
          of_int (round_ties_even (5404319552844595 / 2 ^ 54 * 255 * 2 ^ (52 - 6))) / 2 ^ (52 - 6)"
    by (rule to_double_nat) simp_all
  also have "round_ties_even (5404319552844595 / 2 ^ 54 * 255 * 2 ^ (52 - 6)) = 5383208929591296"
    by (simp add: round_ties_even_def Let_def)
  finally have a: "to_double (5404319552844595 / 2 ^ 54 * 255) = 5383208929591296 / 2 ^ (52 - 6)" by simp
  show ?thesis unfolding double_mul_def a Math_round_def by simp
qed

section \<open>Brightness adjustment on valid colours\<close>

lemma adjustBrightness_valid:
  assumes "valid_hex hex"
  shows "case rgb_channels hex of (r, g, b) \<Rightarrow>
           adjustBrightness hex percent =
             CHR ''#'' # tl (hexdigits (16 ^ 6 +
               nat (clamp_channel (r + Math_round (double_mul (to_double 2.55) percent)) * 65536 +
                    clamp_channel (g + Math_round (double_mul (to_double 2.55) percent)) * 256 +
                    clamp_channel (b + Math_round (double_mul (to_double 2.55) percent)))))"
  unfolding adjustBrightness_def by (rule adjustBrightness_from_valid [OF assms])

lemma mod256_range: "0 \<le> (x::int) mod 256 \<and> x mod 256 \<le> 255"
proof -
  have a: "x mod 256 < 256" by simp
  have b: "\<And>y::int. y < 256 \<Longrightarrow> y \<le> 255" by simp
  show ?thesis using b [OF a] by simp
qed

lemma adjustBrightness_zero_lower:
  assumes "valid_hex c"
  shows "adjustBrightness c 0 = toLowerCase c"
proof -
  obtain ds where hex: "c = CHR ''#'' # ds" and len: "length ds = 6" and hx: "list_all is_hex ds"
    using assms by (auto simp: valid_hex_def split: list.splits)
  define n where "n = int (hexval ds)"
  have "hexval ds < 16 ^ 6" using hexval_bound [OF hx] len by simp
  then have n: "0 \<le> n" "n < 16777216" by (simp_all add: n_def)
  have ch: "rgb_channels c = (n div 65536, n div 256 mod 256, n mod 256)"
    using rgb_channels_valid [OF assms] by (simp add: hex n_def)
  have c1: "clamp_channel (n div 65536) = n div 65536"
    using n by (intro clamp_channel_id) simp_all
  have c2: "clamp_channel (n div 256 mod 256) = n div 256 mod 256"
    using mod256_range [of "n div 256"] by (intro clamp_channel_id) blast+
  have c3: "clamp_channel (n mod 256) = n mod 256"
    using mod256_range [of n] by (intro clamp_channel_id) blast+
  have d2: "n div 65536 = n div 256 div 256" by (simp add: zdiv_zmult2_eq)
  have e1: "n div 256 div 256 * 256 + n div 256 mod 256 = n div 256" by simp
  have e2: "n div 256 * 256 + n mod 256 = n" by simp
  have "n div 65536 * 65536 + n div 256 mod 256 * 256 + n mod 256 =
          (n div 256 div 256 * 256 + n div 256 mod 256) * 256 + n mod 256"
    unfolding d2 by (simp only: distrib_right mult.assoc)
  also have "\<dots> = n" by (simp only: e1 e2)
  finally have recompose: "n div 65536 * 65536 + n div 256 mod 256 * 256 + n mod 256 = n" .
  have "adjustBrightness c 0 = CHR ''#'' # tl (hexdigits (16 ^ 6 + nat n))"
    using adjustBrightness_valid [OF assms, of 0]
    by (simp add: ch amt_zero c1 c2 c3 recompose)
  also have "nat n = hexval ds" by (simp add: n_def)
  also have "hexdigits (16 ^ 6 + hexval ds) = CHR ''1'' # map lower_char ds"
    using hexdigits_of_digits [OF hx] len by simp
  finally show ?thesis
    by (simp add: hex toLowerCase_def lower_char_def)
qed

lemma adjustBrightness_sample: "adjustBrightness ''#3F51B5'' 0 = ''#3f51b5''"
  using adjustBrightness_zero_lower [of "''#3F51B5''"]
  by (simp add: valid_hex_def is_hex_def digit_val_def toLowerCase_def lower_char_def)

lemma div_mod_256:
  fixes k c :: int
  assumes "0 \<le> c" "c \<le> 255"
  shows "(k * 256 + c) div 256 = k" and "(k * 256 + c) mod 256 = c"
  using assms by (simp_all add: div_pos_pos_trivial mod_pos_pos_trivial)

lemma split_channels:
  fixes a b c :: int
  assumes "0 \<le> a" "a \<le> 255" "0 \<le> b" "b \<le> 255" "0 \<le> c" "c \<le> 255"
  shows "(a * 65536 + b * 256 + c) div 65536 = a"
    and "(a * 65536 + b * 256 + c) div 256 mod 256 = b"
    and "(a * 65536 + b * 256 + c) mod 256 = c"
proof -
  have v: "a * 65536 + b * 256 + c = (a * 256 + b) * 256 + c" by simp
  have d1: "((a * 256 + b) * 256 + c) div 256 = a * 256 + b"
    using assms(5,6) by (rule div_mod_256(1))
  have d2: "(a * 256 + b) div 256 = a" using assms(3,4) by (rule div_mod_256(1))
  have m1: "((a * 256 + b) * 256 + c) mod 256 = c" using assms(5,6) by (rule div_mod_256(2))
  have m2: "(a * 256 + b) mod 256 = b" using assms(3,4) by (rule div_mod_256(2))
  have "(a * 65536 + b * 256 + c) div 65536 = (a * 65536 + b * 256 + c) div 256 div 256"
    by (simp add: zdiv_zmult2_eq)
  then show "(a * 65536 + b * 256 + c) div 65536 = a" unfolding v d1 d2 .
  show "(a * 65536 + b * 256 + c) div 256 mod 256 = b" unfolding v d1 m2 ..
  show "(a * 65536 + b * 256 + c) mod 256 = c" unfolding v m1 ..
qed

lemma adjustBrightness_from_result:
  assumes "valid_hex hex"
  shows "valid_hex (adjustBrightness_from hex amt) \<and>
         (case rgb_channels hex of (r, g, b) \<Rightarrow>
            rgb_channels (adjustBrightness_from hex amt) =
              (clamp_channel (r + amt),
               clamp_channel (g + amt),
               clamp_channel (b + amt)))"
proof -
  obtain r g b where ch: "rgb_channels hex = (r, g, b)" by (cases "rgb_channels hex") auto
  define cr where "cr = clamp_channel (r + amt)"
  define cg where "cg = clamp_channel (g + amt)"
  define cb where "cb = clamp_channel (b + amt)"
  have rng: "0 \<le> cr" "cr \<le> 255" "0 \<le> cg" "cg \<le> 255" "0 \<le> cb" "cb \<le> 255"
    using clamp_channel_range by (simp_all add: cr_def cg_def cb_def)
  define v where "v = cr * 65536 + cg * 256 + cb"
  have v0: "0 \<le> v" using rng by (simp add: v_def)
  have "v \<le> 255 * 65536 + 255 * 256 + 255" unfolding v_def using rng by (intro add_mono mult_right_mono) simp_all
  then have vlt: "nat v < 16 ^ 6" using v0 by simp
  obtain ds where ds: "hexdigits (16 ^ 6 + nat v) = CHR ''1'' # ds" "length ds = 6"
      "list_all is_hex ds" "hexval ds = nat v"
    using hexdigits_pad [OF vlt] by blast
  have res: "adjustBrightness_from hex amt = CHR ''#'' # ds"
    using adjustBrightness_from_valid [OF assms, of amt] ds(1)
    by (simp add: ch cr_def cg_def cb_def v_def)
  have vh: "valid_hex (CHR ''#'' # ds)" using ds by (simp add: valid_hex_def)
  have "rgb_channels (CHR ''#'' # ds) = (v div 65536, v div 256 mod 256, v mod 256)"
    using rgb_channels_valid [OF vh] ds(4) v0 by simp
  also have "\<dots> = (cr, cg, cb)"
    unfolding v_def using split_channels [OF rng] by simp
  finally show ?thesis using vh by (simp add: res ch cr_def cg_def cb_def)
qed

section \<open>The alpha suffix\<close>

lemma adjustBrightness_result:
  assumes "valid_hex hex"
  shows "valid_hex (adjustBrightness hex percent) \<and>
         (case rgb_channels hex of (r, g, b) \<Rightarrow>
            rgb_channels (adjustBrightness hex percent) =
              (clamp_channel (r + Math_round (double_mul (to_double 2.55) percent)),
               clamp_channel (g + Math_round (double_mul (to_double 2.55) percent)),
               clamp_channel (b + Math_round (double_mul (to_double 2.55) percent))))"
  unfolding adjustBrightness_def by (rule adjustBrightness_from_result [OF assms])

lemma digit_val_upper_hexchar: "d < 16 \<Longrightarrow> digit_val (upper_char (hexchar d)) = Some d"
  by (drule nat_lt_16_cases) (auto simp: digit_val_def hexchar_def upper_char_def)

lemma hexdigits_two:
  assumes "n < 256"
  shows "padStart 2 (CHR ''0'') (hexdigits n) = [hexchar (n div 16), hexchar (n mod 16)]"
proof (cases "n < 16")
  case True
  then show ?thesis by (simp add: hexdigits.simps [of n] padStart_def hexchar_def)
next
  case False
  have "n div 16 < 16" using assms by simp
  then have "hexdigits (n div 16) = [hexchar (n div 16)]" by (simp add: hexdigits.simps [of "n div 16"])
  then show ?thesis using False by (simp add: hexdigits.simps [of n] padStart_def)
qed

lemma Math_round_alpha:
  assumes "0 \<le> alpha" "alpha \<le> 1"
  shows "0 \<le> Math_round (double_mul alpha 255) \<and> Math_round (double_mul alpha 255) \<le> 255"
proof -
  have "0 \<le> alpha * 255" "alpha * 255 \<le> 255" using assms by simp_all
  then have "0 \<le> to_double (alpha * 255) \<and> to_double (alpha * 255) \<le> 255"
    by (rule to_double_range)
  then show ?thesis unfolding Math_round_def double_mul_def
    by (simp add: le_floor_iff floor_le_iff)
qed

lemma addAlpha_digits:
  assumes "0 \<le> alpha" "alpha \<le> 1"
  shows "addAlpha c alpha =
           c @ toUpperCase [hexchar (nat (Math_round (double_mul alpha 255)) div 16),
                            hexchar (nat (Math_round (double_mul alpha 255)) mod 16)]"
proof -
  define n where "n = nat (Math_round (double_mul alpha 255))"
  have r: "0 \<le> Math_round (double_mul alpha 255)" "Math_round (double_mul alpha 255) \<le> 255"
    using Math_round_alpha [OF assms] by simp_all
  then have n: "n < 256" by (simp add: n_def)
  have "toString16 (Math_round (double_mul alpha 255)) = hexdigits n"
    using r by (simp add: toString16_def n_def)
  then show ?thesis
    unfolding addAlpha_def Let_def using hexdigits_two [OF n] by (simp add: n_def)
qed

lemma addAlpha_zero: "addAlpha c 0 = c @ ''00''"
  using addAlpha_digits [of 0 c]
  by (simp add: double_mul_zero Math_round_def toUpperCase_def hexchar_def upper_char_def)

lemma addAlpha_one: "addAlpha c 1 = c @ ''FF''"
  using addAlpha_digits [of 1 c]
  by (simp add: double_mul_1_255 Math_round_def toUpperCase_def hexchar_def upper_char_def)

lemma addAlpha_half_red: "addAlpha ''#FF0000'' 0.5 = ''#FF000080''"
  using addAlpha_digits [of "1 / 2" "''#FF0000''"]
  by (simp add: double_mul_half_255 Math_round_def toUpperCase_def hexchar_def upper_char_def)

section \<open>Relative luminance: bounds on the transfer function\<close>

text \<open>
  The exponent \<open>2.4\<close> is \<open>12/5\<close>, so a rational bound \<open>q\<close> on \<open>t powr 2.4\<close> is
  decided by comparing \<open>t ^ 12\<close> with \<open>q ^ 5\<close>, which is rational arithmetic.
\<close>

lemma power_powr_inverse:
  fixes x :: real
  assumes "0 < x" "0 < n"
  shows "(x ^ n) powr (1 / real n) = x"
proof -
  have "(x ^ n) powr (1 / real n) = (x powr real n) powr (1 / real n)"
    by (simp only: powr_realpow [OF assms(1)])
  also have "\<dots> = x powr (real n * (1 / real n))" by (rule powr_powr)
  also have "\<dots> = x" using assms by simp
  finally show ?thesis .
qed

lemma powr_12_5:
  fixes t :: real
  assumes "0 < t"
  shows "t powr 2.4 = (t ^ 12) powr (1 / real 5)"
proof -
  have "(t ^ 12) powr (1 / real 5) = (t powr real 12) powr (1 / real 5)"
    by (simp only: powr_realpow [OF assms])
  also have "\<dots> = t powr (real 12 * (1 / real 5))" by (rule powr_powr)
  also have "real 12 * (1 / real 5) = 2.4" by simp
  finally show ?thesis by simp
qed

lemma powr_12_5_le:
  fixes t q :: real
  assumes t: "0 \<le> t" and q: "0 \<le> q" and h: "t ^ 12 \<le> q ^ 5"
  shows "t powr 2.4 \<le> q"
proof (cases "t = 0")
  case True
  then show ?thesis using q by simp
next
  case False
  then have tp: "0 < t" using t by simp
  then have "0 < t ^ 12" by simp
  then have "0 < q ^ 5" using h by linarith
  then have "q \<noteq> 0" by (auto simp: power_0_left)
  then have qp: "0 < q" using q by simp
  have "t powr 2.4 = (t ^ 12) powr (1 / real 5)" by (rule powr_12_5 [OF tp])
  also have "\<dots> \<le> (q ^ 5) powr (1 / real 5)" using h t by (intro powr_mono2) auto
  also have "\<dots> = q" by (rule power_powr_inverse [OF qp]) simp
  finally show ?thesis .
qed

lemma powr_12_5_ge:
  fixes t q :: real
  assumes t: "0 \<le> t" and q: "0 \<le> q" and h: "q ^ 5 \<le> t ^ 12"
  shows "q \<le> t powr 2.4"
proof (cases "q = 0")
  case True
  then show ?thesis by simp
next
  case False
  then have qp: "0 < q" using q by simp
  then have "0 < q ^ 5" by simp
  then have "0 < t ^ 12" using h by linarith
  then have "t \<noteq> 0" by (auto simp: power_0_left)
  then have tp: "0 < t" using t by simp
  have "q = (q ^ 5) powr (1 / real 5)" by (rule power_powr_inverse [OF qp, symmetric]) simp
  also have "\<dots> \<le> (t ^ 12) powr (1 / real 5)" using h q by (intro powr_mono2) auto
  also have "\<dots> = t powr 2.4" by (rule powr_12_5 [OF tp, symmetric])
  finally show ?thesis .
qed

lemma linearize_power_branch:
  assumes "10 < c"
  shows "linearize c = ((real_of_int c / 255 + 0.055) / 1.055) powr 2.4"
proof -
  have "11 \<le> c" using assms by simp
  then have "11 \<le> real_of_int c" by linarith
  then have "\<not> real_of_int c / 255 \<le> 0.03928" by simp
  then show ?thesis unfolding linearize_def Let_def by (simp only: if_False)
qed

lemma linearize_le:
  assumes "10 < c" "0 \<le> q" "((real_of_int c / 255 + 0.055) / 1.055) ^ 12 \<le> q ^ 5"
  shows "linearize c \<le> q"
proof -
  have "0 \<le> real_of_int c" using assms(1) by simp
  then have "0 \<le> (real_of_int c / 255 + 0.055) / 1.055" by simp
  then show ?thesis
    unfolding linearize_power_branch [OF assms(1)] using assms(2,3) by (rule powr_12_5_le)
qed

lemma linearize_ge:
  assumes "10 < c" "0 \<le> q" "q ^ 5 \<le> ((real_of_int c / 255 + 0.055) / 1.055) ^ 12"
  shows "q \<le> linearize c"
proof -
  have "0 \<le> real_of_int c" using assms(1) by simp
  then have "0 \<le> (real_of_int c / 255 + 0.055) / 1.055" by simp
  then show ?thesis
    unfolding linearize_power_branch [OF assms(1)] using assms(2,3) by (rule powr_12_5_ge)
qed

lemma linearize_0: "linearize 0 = 0"
  by (simp add: linearize_def)

lemma linearize_255: "linearize 255 = 1"
  by (simp add: linearize_def)

lemma linearize_nonneg: "0 \<le> c \<Longrightarrow> 0 \<le> linearize c"
  by (simp add: linearize_def Let_def)

section \<open>Luminance and contrast\<close>

lemma js_and_255_range: "0 \<le> js_and x 255 \<and> js_and x 255 \<le> 255"
proof -
  have "ToInt32 (Some 255) = 255" by (simp add: ToInt32_def)
  then have "js_and x 255 = ToInt32 x mod 256" by (simp add: js_and_def and_255)
  then show ?thesis using mod256_range [of "ToInt32 x"] by simp
qed

lemma rgb_channels_range:
  "case rgb_channels hex of (r, g, b) \<Rightarrow>
     0 \<le> r \<and> r \<le> 255 \<and> 0 \<le> g \<and> g \<le> 255 \<and> 0 \<le> b \<and> b \<le> 255"
  unfolding rgb_channels_def Let_def using js_and_255_range by simp

lemma getLuminance_nonneg: "0 \<le> getLuminance hex"
proof -
  obtain r g b where ch: "rgb_channels hex = (r, g, b)" by (cases "rgb_channels hex") auto
  then have "0 \<le> r" "0 \<le> g" "0 \<le> b" using rgb_channels_range [of hex] by simp_all
  then have "0 \<le> linearize r" "0 \<le> linearize g" "0 \<le> linearize b"
    by (simp_all add: linearize_nonneg)
  then show ?thesis by (simp add: getLuminance_def ch)
qed

lemma getContrastRatio_self: "getContrastRatio c c = 1"
  using getLuminance_nonneg [of c] by (simp add: getContrastRatio_def)

lemma contrast_from_bounds:
  fixes x y l h :: real
  assumes "0 \<le> x" "x \<le> l" "h \<le> y" "5 * l + 1 / 5 \<le> h"
  shows "5 \<le> (max x y + 0.05) / (min x y + 0.05)"
proof -
  have e: "(0.05::real) = 1 / 20" by simp
  have "x \<le> y" using assms by linarith
  then have m: "max x y = y" "min x y = x" by simp_all
  have "5 * x + 1 / 4 \<le> y + 1 / 20" using assms by linarith
  then have "5 * (x + 1 / 20) \<le> y + 1 / 20" by (simp add: distrib_left)
  moreover have "0 < x + 1 / 20" using assms(1) by linarith
  ultimately have "5 \<le> (y + 1 / 20) / (x + 1 / 20)" by (simp only: le_divide_eq) simp
  then show ?thesis unfolding m e .
qed

section \<open>Luminance of the catalog colours\<close>

text \<open>
  Each bound below is a rational enclosure of the exact luminance, wide enough to be
  checked by rational arithmetic and narrow enough to decide the contrast checks.
\<close>

lemma ch_1A1A1A: "rgb_channels ''#1A1A1A'' = (26, 26, 26)"
  by (subst rgb_channels_valid) (simp_all add: valid_hex_def is_hex_def digit_val_def hexval_def)

lemma lum_1A1A1A: "getLuminance ''#1A1A1A'' \<le> 12 / 1000"
proof -
  have l0: "linearize 26 \<le> 3 / 250" by (rule linearize_le) (simp_all add: power_divide)
  have "1063 / 5000 * linearize 26 + 447 / 625 * linearize 26 + 361 / 5000 * linearize 26 \<le> 12 / 1000"
    using l0 by linarith
  then show ?thesis by (simp add: getLuminance_def ch_1A1A1A)
qed

lemma ch_3F51B5: "rgb_channels ''#3F51B5'' = (63, 81, 181)"
  by (subst rgb_channels_valid) (simp_all add: valid_hex_def is_hex_def digit_val_def hexval_def)

lemma lum_3F51B5: "getLuminance ''#3F51B5'' \<le> 105 / 1000"
proof -
  have l0: "linearize 63 \<le> 51 / 1000" by (rule linearize_le) (simp_all add: power_divide)
  have l1: "linearize 81 \<le> 21 / 250" by (rule linearize_le) (simp_all add: power_divide)
  have l2: "linearize 181 \<le> 58 / 125" by (rule linearize_le) (simp_all add: power_divide)
  have "1063 / 5000 * linearize 63 + 447 / 625 * linearize 81 + 361 / 5000 * linearize 181 \<le> 105 / 1000"
    using l0 l1 l2 by linarith
  then show ?thesis by (simp add: getLuminance_def ch_3F51B5)
qed

lemma ch_00695C: "rgb_channels ''#00695C'' = (0, 105, 92)"
  by (subst rgb_channels_valid) (simp_all add: valid_hex_def is_hex_def digit_val_def hexval_def)

lemma lum_00695C: "getLuminance ''#00695C'' \<le> 111 / 1000"
proof -
  have l0: "linearize 0 = 0" by (rule linearize_0)
  have l1: "linearize 105 \<le> 143 / 1000" by (rule linearize_le) (simp_all add: power_divide)
  have l2: "linearize 92 \<le> 109 / 1000" by (rule linearize_le) (simp_all add: power_divide)
  have "1063 / 5000 * linearize 0 + 447 / 625 * linearize 105 + 361 / 5000 * linearize 92 \<le> 111 / 1000"
    using l0 l1 l2 by linarith
  then show ?thesis by (simp add: getLuminance_def ch_00695C)
qed

lemma ch_666666: "rgb_channels ''#666666'' = (102, 102, 102)"
  by (subst rgb_channels_valid) (simp_all add: valid_hex_def is_hex_def digit_val_def hexval_def)

lemma lum_666666: "getLuminance ''#666666'' \<le> 134 / 1000"
proof -
  have l0: "linearize 102 \<le> 67 / 500" by (rule linearize_le) (simp_all add: power_divide)
  have "1063 / 5000 * linearize 102 + 447 / 625 * linearize 102 + 361 / 5000 * linearize 102 \<le> 134 / 1000"
    using l0 by linarith
  then show ?thesis by (simp add: getLuminance_def ch_666666)
qed

lemma ch_F3F7FA: "rgb_channels ''#F3F7FA'' = (243, 247, 250)"
  by (subst rgb_channels_valid) (simp_all add: valid_hex_def is_hex_def digit_val_def hexval_def)

lemma lum_F3F7FA: "92 / 100 \<le> getLuminance ''#F3F7FA''"
proof -
  have l0: "179 / 200 \<le> linearize 243" by (rule linearize_ge) (simp_all add: power_divide)
  have l1: "929 / 1000 \<le> linearize 247" by (rule linearize_ge) (simp_all add: power_divide)
  have l2: "477 / 500 \<le> linearize 250" by (rule linearize_ge) (simp_all add: power_divide)
  have "92 / 100 \<le> 1063 / 5000 * linearize 243 + 447 / 625 * linearize 247 + 361 / 5000 * linearize 250"
    using l0 l1 l2 by linarith
  then show ?thesis by (simp add: getLuminance_def ch_F3F7FA)
qed

lemma ch_121212: "rgb_channels ''#121212'' = (18, 18, 18)"
  by (subst rgb_channels_valid) (simp_all add: valid_hex_def is_hex_def digit_val_def hexval_def)

lemma lum_121212: "getLuminance ''#121212'' \<le> 8 / 1000"
proof -
  have l0: "linearize 18 \<le> 1 / 125" by (rule linearize_le) (simp_all add: power_divide)
  have "1063 / 5000 * linearize 18 + 447 / 625 * linearize 18 + 361 / 5000 * linearize 18 \<le> 8 / 1000"
    using l0 by linarith
  then show ?thesis by (simp add: getLuminance_def ch_121212)
qed

lemma ch_1E1E1E: "rgb_channels ''#1E1E1E'' = (30, 30, 30)"
  by (subst rgb_channels_valid) (simp_all add: valid_hex_def is_hex_def digit_val_def hexval_def)

lemma lum_1E1E1E: "getLuminance ''#1E1E1E'' \<le> 14 / 1000"
proof -
  have l0: "linearize 30 \<le> 7 / 500" by (rule linearize_le) (simp_all add: power_divide)
  have "1063 / 5000 * linearize 30 + 447 / 625 * linearize 30 + 361 / 5000 * linearize 30 \<le> 14 / 1000"
    using l0 by linarith
  then show ?thesis by (simp add: getLuminance_def ch_1E1E1E)
qed

lemma ch_7986CB: "rgb_channels ''#7986CB'' = (121, 134, 203)"
  by (subst rgb_channels_valid) (simp_all add: valid_hex_def is_hex_def digit_val_def hexval_def)

lemma lum_7986CB: "25 / 100 \<le> getLuminance ''#7986CB''"
proof -
  have l0: "19 / 100 \<le> linearize 121" by (rule linearize_ge) (simp_all add: power_divide)
  have l1: "237 / 1000 \<le> linearize 134" by (rule linearize_ge) (simp_all add: power_divide)
  have l2: "149 / 250 \<le> linearize 203" by (rule linearize_ge) (simp_all add: power_divide)
  have "25 / 100 \<le> 1063 / 5000 * linearize 121 + 447 / 625 * linearize 134 + 361 / 5000 * linearize 203"
    using l0 l1 l2 by linarith
  then show ?thesis by (simp add: getLuminance_def ch_7986CB)
qed

lemma ch_64FFDA: "rgb_channels ''#64FFDA'' = (100, 255, 218)"
  by (subst rgb_channels_valid) (simp_all add: valid_hex_def is_hex_def digit_val_def hexval_def)

lemma lum_64FFDA: "79 / 100 \<le> getLuminance ''#64FFDA''"
proof -
  have l0: "63 / 500 \<le> linearize 100" by (rule linearize_ge) (simp_all add: power_divide)
  have l1: "linearize 255 = 1" by (rule linearize_255)
  have l2: "7 / 10 \<le> linearize 218" by (rule linearize_ge) (simp_all add: power_divide)
  have "79 / 100 \<le> 1063 / 5000 * linearize 100 + 447 / 625 * linearize 255 + 361 / 5000 * linearize 218"
    using l0 l1 l2 by linarith
  then show ?thesis by (simp add: getLuminance_def ch_64FFDA)
qed

lemma ch_B0B0B0: "rgb_channels ''#B0B0B0'' = (176, 176, 176)"
  by (subst rgb_channels_valid) (simp_all add: valid_hex_def is_hex_def digit_val_def hexval_def)

lemma lum_B0B0B0: "433 / 1000 \<le> getLuminance ''#B0B0B0''"
proof -
  have l0: "433 / 1000 \<le> linearize 176" by (rule linearize_ge) (simp_all add: power_divide)
  have "433 / 1000 \<le> 1063 / 5000 * linearize 176 + 447 / 625 * linearize 176 + 361 / 5000 * linearize 176"
    using l0 by linarith
  then show ?thesis by (simp add: getLuminance_def ch_B0B0B0)
qed

lemma ch_FFFFFF: "rgb_channels ''#FFFFFF'' = (255, 255, 255)"
  by (subst rgb_channels_valid) (simp_all add: valid_hex_def is_hex_def digit_val_def hexval_def)

lemma lum_FFFFFF: "getLuminance ''#FFFFFF'' = 1"
  by (simp add: getLuminance_def ch_FFFFFF linearize_255)

lemma ch_000000: "rgb_channels ''#000000'' = (0, 0, 0)"
  by (subst rgb_channels_valid) (simp_all add: valid_hex_def is_hex_def digit_val_def hexval_def)

lemma lum_000000: "getLuminance ''#000000'' = 0"
  by (simp add: getLuminance_def ch_000000 linearize_0)

section \<open>Contrast of the catalog pairs\<close>

lemma lum_FFFFFF_ge: "1 \<le> getLuminance ''#FFFFFF''"
  by (simp add: lum_FFFFFF)

lemma getContrastRatio_sym: "getContrastRatio a b = getContrastRatio b a"
  unfolding getContrastRatio_def Let_def
  by (simp only: max.commute [of "getLuminance a"] min.commute [of "getLuminance a"])

lemma contrast_light_text_background: "5 \<le> getContrastRatio ''#1A1A1A'' ''#F3F7FA''"
  unfolding getContrastRatio_def Let_def
  by (rule contrast_from_bounds [OF getLuminance_nonneg lum_1A1A1A lum_F3F7FA]) simp

lemma contrast_light_text_surface: "5 \<le> getContrastRatio ''#1A1A1A'' ''#FFFFFF''"
  unfolding getContrastRatio_def Let_def
  by (rule contrast_from_bounds [OF getLuminance_nonneg lum_1A1A1A lum_FFFFFF_ge]) simp

lemma contrast_light_primary_background: "5 \<le> getContrastRatio ''#3F51B5'' ''#F3F7FA''"
  unfolding getContrastRatio_def Let_def
  by (rule contrast_from_bounds [OF getLuminance_nonneg lum_3F51B5 lum_F3F7FA]) simp

lemma contrast_light_accent_background: "5 \<le> getContrastRatio ''#00695C'' ''#F3F7FA''"
  unfolding getContrastRatio_def Let_def
  by (rule contrast_from_bounds [OF getLuminance_nonneg lum_00695C lum_F3F7FA]) simp

lemma contrast_light_textSecondary_background: "5 \<le> getContrastRatio ''#666666'' ''#F3F7FA''"
  unfolding getContrastRatio_def Let_def
  by (rule contrast_from_bounds [OF getLuminance_nonneg lum_666666 lum_F3F7FA]) simp

lemma contrast_dark_text_background: "5 \<le> getContrastRatio ''#FFFFFF'' ''#121212''"
  apply (subst getContrastRatio_sym)
  unfolding getContrastRatio_def Let_def
  by (rule contrast_from_bounds [OF getLuminance_nonneg lum_121212 lum_FFFFFF_ge]) simp

lemma contrast_dark_text_surface: "5 \<le> getContrastRatio ''#FFFFFF'' ''#1E1E1E''"
  apply (subst getContrastRatio_sym)
  unfolding getContrastRatio_def Let_def
  by (rule contrast_from_bounds [OF getLuminance_nonneg lum_1E1E1E lum_FFFFFF_ge]) simp

lemma contrast_dark_primary_background: "5 \<le> getContrastRatio ''#7986CB'' ''#121212''"
  apply (subst getContrastRatio_sym)
  unfolding getContrastRatio_def Let_def
  by (rule contrast_from_bounds [OF getLuminance_nonneg lum_121212 lum_7986CB]) simp

lemma contrast_dark_accent_background: "5 \<le> getContrastRatio ''#64FFDA'' ''#121212''"
  apply (subst getContrastRatio_sym)
  unfolding getContrastRatio_def Let_def
  by (rule contrast_from_bounds [OF getLuminance_nonneg lum_121212 lum_64FFDA]) simp

lemma contrast_dark_textSecondary_background: "5 \<le> getContrastRatio ''#B0B0B0'' ''#121212''"
  apply (subst getContrastRatio_sym)
  unfolding getContrastRatio_def Let_def
  by (rule contrast_from_bounds [OF getLuminance_nonneg lum_121212 lum_B0B0B0]) simp

lemma meets_from_contrast: "5 \<le> getContrastRatio a b \<Longrightarrow> meetsAccessibilityStandards a b"
  by (simp add: meetsAccessibilityStandards_def)

lemma validate_light: "allValid (validateThemeAccessibility lightTheme)"
  by (simp add: validateThemeAccessibility_def lightTheme_def Let_def
      meets_from_contrast [OF contrast_light_text_background]
      meets_from_contrast [OF contrast_light_text_surface]
      meets_from_contrast [OF contrast_light_primary_background]
      meets_from_contrast [OF contrast_light_accent_background]
      meets_from_contrast [OF contrast_light_textSecondary_background])

lemma validate_dark: "allValid (validateThemeAccessibility darkTheme)"
  by (simp add: validateThemeAccessibility_def darkTheme_def Let_def
      meets_from_contrast [OF contrast_dark_text_background]
      meets_from_contrast [OF contrast_dark_text_surface]
      meets_from_contrast [OF contrast_dark_primary_background]
      meets_from_contrast [OF contrast_dark_accent_background]
      meets_from_contrast [OF contrast_dark_textSecondary_background])

lemma contrast_black_white: "getContrastRatio ''#000000'' ''#FFFFFF'' = 21"
  by (simp add: getContrastRatio_def lum_000000 lum_FFFFFF)

lemma allValid_conj: "allValid (validateThemeAccessibility t) =
       (meetsAccessibilityStandards (textColor (colors t)) (background (colors t)) \<and>
        meetsAccessibilityStandards (textColor (colors t)) (surface (colors t)) \<and>
        meetsAccessibilityStandards (primary (colors t)) (background (colors t)) \<and>
        meetsAccessibilityStandards (accent (colors t)) (background (colors t)) \<and>
        meetsAccessibilityStandards (textSecondary (colors t)) (background (colors t)))"
  by (simp add: validateThemeAccessibility_def Let_def)

lemma hexval_upper_pair:
  assumes "n < 256"
  shows "hexval (toUpperCase [hexchar (n div 16), hexchar (n mod 16)]) = n"
proof -
  have a: "n div 16 < 16" using assms by simp
  have b: "n mod 16 < 16" by simp
  show ?thesis
    by (simp add: hexval_def toUpperCase_def digit_val_upper_hexchar [OF a]
        digit_val_upper_hexchar [OF b])
qed

lemma adjustBrightness_zero_channels:
  assumes "valid_hex c"
  shows "rgb_channels (adjustBrightness c 0) = rgb_channels c"
proof -
  obtain r g b where ch: "rgb_channels c = (r, g, b)" by (cases "rgb_channels c") auto
  then have rng: "0 \<le> r" "r \<le> 255" "0 \<le> g" "g \<le> 255" "0 \<le> b" "b \<le> 255"
    using rgb_channels_range [of c] by simp_all
  show ?thesis
    using adjustBrightness_result [OF assms, of 0] rng
    by (simp add: ch amt_zero clamp_channel_id)
qed

section \<open>Statements about ThemeUtils and the catalog\<close>

text \<open>
  Claim C2. For the shipped catalog, \<open>validateThemeAccessibility(lightTheme).allValid\<close> and
  \<open>validateThemeAccessibility(darkTheme).allValid\<close> are both true, and \<open>allValid\<close> is the
  conjunction of the five role-pair checks text/background, text/surface,
  primary/background, accent/background and textSecondary/background, computed on the
  hex constants of the theme. The contrast ratios are the exact real values of the
  formulas of \<open>getContrastRatio\<close>; every one of the ten ratios is at least 5 (the lemmas
  \<open>contrast_light_\<dots>\<close> and \<open>contrast_dark_\<dots>\<close>), so the comparison with 4.5 has a margin of
  one half, far beyond the rounding of double arithmetic.
\<close>

theorem shipped_catalog_allValid:
  "allValid (validateThemeAccessibility lightTheme) = True \<and>
   allValid (validateThemeAccessibility darkTheme) = True \<and>
   (\<forall>t. allValid (validateThemeAccessibility t) =
      (meetsAccessibilityStandards (textColor (colors t)) (background (colors t)) \<and>
       meetsAccessibilityStandards (textColor (colors t)) (surface (colors t)) \<and>
       meetsAccessibilityStandards (primary (colors t)) (background (colors t)) \<and>
       meetsAccessibilityStandards (accent (colors t)) (background (colors t)) \<and>
       meetsAccessibilityStandards (textSecondary (colors t)) (background (colors t))))"
  using validate_light validate_dark allValid_conj by blast

text \<open>
  Claim C6, as stated: for every valid \<open>#RRGGBB\<close> colour \<open>c\<close>, \<open>adjustBrightness(c, 0)\<close>
  is a string equal to \<open>c\<close>. It fails on a colour written with upper-case digits, such
  as the primary colour of the light theme: \<open>toString(16)\<close> prints lower-case digits.
\<close>

theorem adjustBrightness_zero_not_identity:
  "valid_hex ''#3F51B5'' \<and> adjustBrightness ''#3F51B5'' 0 \<noteq> ''#3F51B5''"
  by (simp add: adjustBrightness_sample valid_hex_def is_hex_def digit_val_def)

text \<open>
  Claim C6, amended: for every valid \<open>#RRGGBB\<close> colour \<open>c\<close>, \<open>adjustBrightness(c, 0)\<close> is
  \<open>c\<close> with its hexadecimal letters in lower case. It is the same colour (the three
  channels are unchanged), and it is the same string exactly when \<open>c\<close> has no
  upper-case digit.
\<close>

theorem adjustBrightness_zero_lowercase:
  assumes "valid_hex c"
  shows "adjustBrightness c 0 = toLowerCase c \<and>
         rgb_channels (adjustBrightness c 0) = rgb_channels c \<and>
         (adjustBrightness c 0 = c) = (toLowerCase c = c)"
  using adjustBrightness_zero_lower [OF assms] adjustBrightness_zero_channels [OF assms]
  by simp

theorem adjustBrightness_zero_lowercase_witness:
  "valid_hex ''#3F51B5'' \<and> adjustBrightness ''#3F51B5'' 0 = ''#3f51b5'' \<and>
   valid_hex ''#00695c'' \<and> adjustBrightness ''#00695c'' 0 = ''#00695c''"
  using adjustBrightness_zero_lowercase [of "''#3F51B5''"]
    adjustBrightness_zero_lowercase [of "''#00695c''"]
  by (simp add: valid_hex_def is_hex_def digit_val_def toLowerCase_def lower_char_def)

text \<open>
  Claim C7. For every valid \<open>#RRGGBB\<close> colour and every percent (in particular every
  percent in \<open>[-100, 100]\<close>), the result of \<open>adjustBrightness\<close> is again a valid colour,
  each of its channels is the channel of the input plus \<open>Math.round(2.55 * percent)\<close>,
  clamped, and lies in \<open>[0, 255]\<close>; the clamp sends values below 1 to 0 and values of 255
  or more to 255 and keeps the others. The product is the double product of the source:
  for a percent in \<open>[-100, 100]\<close> the amount added is an integer within
  \<open>1/2 + 2 ^ -44\<close> of the exact \<open>2.55 \<times> percent\<close>, that is \<open>2.55 \<times> percent\<close> rounded, where a
  product that is a half in exact arithmetic may go either way (at percent 50 the double
  product is just below 127.5 and the amount is 127). The statement about the channels
  also holds of the body of the function for every integer amount \<open>amt\<close>.
\<close>

theorem adjustBrightness_channels_clamped:
  assumes "valid_hex hex"
  shows "(case rgb_channels hex of (r, g, b) \<Rightarrow>
          case rgb_channels (adjustBrightness hex percent) of (r', g', b') \<Rightarrow>
            r' = clamp_channel (r + Math_round (double_mul (to_double 2.55) percent)) \<and>
            g' = clamp_channel (g + Math_round (double_mul (to_double 2.55) percent)) \<and>
            b' = clamp_channel (b + Math_round (double_mul (to_double 2.55) percent)) \<and>
            0 \<le> r' \<and> r' \<le> 255 \<and> 0 \<le> g' \<and> g' \<le> 255 \<and> 0 \<le> b' \<and> b' \<le> 255) \<and>
         valid_hex (adjustBrightness hex percent) \<and>
         (- 100 \<le> percent \<and> percent \<le> 100 \<longrightarrow>
            \<bar>of_int (Math_round (double_mul (to_double 2.55) percent)) - 2.55 * percent\<bar>
              \<le> 1 / 2 + 1 / 2 ^ 44) \<and>
         (case rgb_channels hex of (r, g, b) \<Rightarrow>
          case rgb_channels (adjustBrightness_from hex amt) of (r', g', b') \<Rightarrow>
            r' = clamp_channel (r + amt) \<and> g' = clamp_channel (g + amt) \<and>
            b' = clamp_channel (b + amt) \<and>
            0 \<le> r' \<and> r' \<le> 255 \<and> 0 \<le> g' \<and> g' \<le> 255 \<and> 0 \<le> b' \<and> b' \<le> 255) \<and>
         (\<forall>x. clamp_channel x = (if x < 1 then 0 else if 255 \<le> x then 255 else x))"
proof -
  obtain r g b where ch: "rgb_channels hex = (r, g, b)" by (cases "rgb_channels hex") auto
  have "\<forall>x. clamp_channel x = (if x < 1 then 0 else if 255 \<le> x then 255 else x)"
    by (simp add: clamp_channel_def)
  moreover have "- 100 \<le> percent \<and> percent \<le> 100 \<longrightarrow>
            \<bar>of_int (Math_round (double_mul (to_double 2.55) percent)) - 2.55 * percent\<bar>
              \<le> 1 / 2 + 1 / 2 ^ 44"
    using amt_error [of percent] by blast
  ultimately show ?thesis
    using adjustBrightness_result [OF assms, of percent]
      adjustBrightness_from_result [OF assms, of amt] clamp_channel_range
    by (simp add: ch)
qed

theorem adjustBrightness_channels_clamped_witness:
  "valid_hex ''#3F51B5'' \<and> rgb_channels ''#3F51B5'' = (63, 81, 181) \<and>
   (- 100 :: real) \<le> 50 \<and> (50 :: real) \<le> 100 \<and>
   rgb_channels (adjustBrightness ''#3F51B5'' 50) = (190, 208, 255) \<and>
   rgb_channels (adjustBrightness ''#3F51B5'' (- 100)) = (0, 0, 0)"
  using adjustBrightness_channels_clamped [of "''#3F51B5''" 50 127]
    adjustBrightness_channels_clamped [of "''#3F51B5''" "- 100" "- 255"]
  unfolding amt_at_50 amt_at_minus_100
  by (simp add: ch_3F51B5 valid_hex_def is_hex_def digit_val_def clamp_channel_def
      split: prod.splits)

text \<open>
  Claim C8. For every colour string \<open>c\<close> and every \<open>alpha\<close> in \<open>[0, 1]\<close>, \<open>addAlpha(c, alpha)\<close>
  is \<open>c\<close> followed by two upper-case hexadecimal digits, zero-padded, whose value is
  \<open>Math.round(alpha * 255)\<close>: the double product of the source, rounded, which is an
  integer between 0 and 255 within \<open>1/2 + 2 ^ -46\<close> of the exact \<open>alpha \<times> 255\<close>.
  \<open>addAlpha(c, 0)\<close> ends with \<open>00\<close>, \<open>addAlpha(c, 1)\<close> ends with \<open>FF\<close>, and
  \<open>addAlpha("#FF0000", 0.5)\<close> is \<open>#FF000080\<close>.
\<close>

theorem addAlpha_suffix:
  "(0 \<le> alpha \<and> alpha \<le> 1 \<longrightarrow>
      (let n = nat (Math_round (double_mul alpha 255));
           suffix = toUpperCase [hexchar (n div 16), hexchar (n mod 16)]
       in n \<le> 255 \<and> addAlpha c alpha = c @ suffix \<and> hexval suffix = n \<and>
          \<bar>real n - alpha * 255\<bar> \<le> 1 / 2 + 1 / 2 ^ 46)) \<and>
   addAlpha c 0 = c @ ''00'' \<and>
   addAlpha c 1 = c @ ''FF'' \<and>
   addAlpha ''#FF0000'' 0.5 = ''#FF000080''"
proof -
  have "0 \<le> alpha \<and> alpha \<le> 1 \<longrightarrow>
      (let n = nat (Math_round (double_mul alpha 255));
           suffix = toUpperCase [hexchar (n div 16), hexchar (n mod 16)]
       in n \<le> 255 \<and> addAlpha c alpha = c @ suffix \<and> hexval suffix = n \<and>
          \<bar>real n - alpha * 255\<bar> \<le> 1 / 2 + 1 / 2 ^ 46)"
  proof
    assume a: "0 \<le> alpha \<and> alpha \<le> 1"
    then have r: "0 \<le> Math_round (double_mul alpha 255)" "Math_round (double_mul alpha 255) \<le> 255"
      using Math_round_alpha [of alpha] by simp_all
    then have n: "nat (Math_round (double_mul alpha 255)) < 256" by simp
    have "real (nat (Math_round (double_mul alpha 255))) =
            of_int (Math_round (double_mul alpha 255))"
      using r(1) by simp
    then have e: "\<bar>real (nat (Math_round (double_mul alpha 255))) - alpha * 255\<bar>
                   \<le> 1 / 2 + 1 / 2 ^ 46"
      using alpha_round_error [of alpha] a by simp
    show "let n = nat (Math_round (double_mul alpha 255));
           suffix = toUpperCase [hexchar (n div 16), hexchar (n mod 16)]
       in n \<le> 255 \<and> addAlpha c alpha = c @ suffix \<and> hexval suffix = n \<and>
          \<bar>real n - alpha * 255\<bar> \<le> 1 / 2 + 1 / 2 ^ 46"
      unfolding Let_def
      using a addAlpha_digits [of alpha c] hexval_upper_pair [OF n] r e by simp
  qed
  then show ?thesis using addAlpha_zero addAlpha_one addAlpha_half_red by blast
qed

theorem addAlpha_suffix_witness:
  "(0 :: real) \<le> 5404319552844595 / 2 ^ 54 \<and> (5404319552844595 / 2 ^ 54 :: real) \<le> 1 \<and>
   addAlpha ''#00FF00'' (5404319552844595 / 2 ^ 54) = ''#00FF004D''"
  using addAlpha_suffix [of "5404319552844595 / 2 ^ 54" "''#00FF00''"]
  unfolding alpha_suffix_at_double_0_3
  by (simp add: Let_def toUpperCase_def hexchar_def upper_char_def)

text \<open>
  Claim C9. \<open>getContrastRatio(c, c)\<close> is exactly 1 for every colour string \<open>c\<close> (valid or
  not), and \<open>getContrastRatio("#000000", "#FFFFFF")\<close> is exactly 21.
\<close>

theorem contrast_ratio_boundaries:
  "getContrastRatio c c = 1 \<and> getContrastRatio ''#000000'' ''#FFFFFF'' = 21"
  using getContrastRatio_self contrast_black_white by simp

section \<open>The resolver: loading flag and pending load\<close>

lemmas resolver_defs = mount_def toggleTheme_def saveThemePreference_def loadThemePreference_def
  loadThemePreference_try_def stringify_preference_def contextValue_def THEME_STORAGE_KEY_def

lemma step_render_toggle_or_write_load:
  "is_render_toggle_or_write e \<Longrightarrow> load (step sys e s) = load s"
  by (cases e) (simp_all add: toggleTheme_def saveThemePreference_def Let_def)

lemma run_render_toggle_or_write_load:
  "list_all is_render_toggle_or_write es \<Longrightarrow> load (run sys s es) = load s"
  by (induction es arbitrary: s) (simp_all add: step_render_toggle_or_write_load)

lemma load_resume_isDark:
  assumes "load s = ReadSettled r"
  shows "isDark (step sys LoadResumes s) =
           (case loadThemePreference_try sys r of Inr d \<Rightarrow> d | Inl e \<Rightarrow> JBool (sys = SchemeDark))"
    and "\<not> isLoading (step sys LoadResumes s)"
    and "load (step sys LoadResumes s) = LoadFinished"
    and "warnings (step sys LoadResumes s) =
           (case loadThemePreference_try sys r of Inr d \<Rightarrow> warnings s
            | Inl e \<Rightarrow> warnings s @ [''Failed to load theme preference:''])"
    and "store (step sys LoadResumes s) = store s"
  using assms by (simp_all add: loadThemePreference_def split: sum.splits)

lemma loading_inv_mount: "loading_inv (mount sys st)"
  by (simp add: loading_inv_def mount_def)

lemma loading_inv_step: "loading_inv s \<Longrightarrow> loading_inv (step sys e s)"
  by (cases e)
     (auto simp: loading_inv_def toggleTheme_def saveThemePreference_def Let_def
        loadThemePreference_def split: load_phase.splits sum.splits)

lemma loading_inv_run: "loading_inv s \<Longrightarrow> loading_inv (run sys s es)"
  by (induction es arbitrary: s) (simp_all add: loading_inv_step)

lemma not_loading_step: "loading_inv s \<Longrightarrow> \<not> isLoading s \<Longrightarrow> \<not> isLoading (step sys e s)"
  by (cases e)
     (auto simp: loading_inv_def toggleTheme_def saveThemePreference_def Let_def
        split: load_phase.splits)

lemma trace_nonempty: "trace sys s es \<noteq> []"
  by (cases es) simp_all

lemma last_trace: "last (trace sys s es) = run sys s es"
  by (induction es arbitrary: s) (simp_all add: trace_nonempty)

lemma not_loading_trace:
  "loading_inv s \<Longrightarrow> \<not> isLoading s \<Longrightarrow>
     map isLoading (trace sys s es) = replicate (Suc (length es)) False"
proof (induction es arbitrary: s)
  case Nil
  then show ?case by simp
next
  case (Cons e es)
  then show ?case
    using loading_inv_step [of s sys e] not_loading_step [of s sys e] by simp
qed

lemma loading_trace_shape:
  "loading_inv s \<Longrightarrow> isLoading s \<Longrightarrow>
     \<exists>k m. map isLoading (trace sys s es) = replicate (Suc k) True @ replicate m False \<and>
           (0 < m) = (\<not> isLoading (run sys s es))"
proof (induction es arbitrary: s)
  case Nil
  then have "map isLoading (trace sys s []) = replicate (Suc 0) True @ replicate 0 False"
    by simp
  then show ?case using Nil by (metis less_numeral_extra(3) run.simps(1))
next
  case (Cons e es)
  show ?case
  proof (cases "isLoading (step sys e s)")
    case True
    then obtain k m where km:
      "map isLoading (trace sys (step sys e s) es) = replicate (Suc k) True @ replicate m False"
      "(0 < m) = (\<not> isLoading (run sys (step sys e s) es))"
      using Cons.IH [OF loading_inv_step [OF Cons.prems(1)]] by blast
    have "map isLoading (trace sys s (e # es)) = replicate (Suc (Suc k)) True @ replicate m False"
      using km(1) Cons.prems(2) by simp
    then show ?thesis using km(2) by (metis run.simps(2))
  next
    case False
    have inv': "loading_inv (step sys e s)" by (rule loading_inv_step [OF Cons.prems(1)])
    have t: "map isLoading (trace sys (step sys e s) es) = replicate (Suc (length es)) False"
      by (rule not_loading_trace [OF inv' False])
    have "map isLoading (trace sys s (e # es)) =
            replicate (Suc 0) True @ replicate (Suc (length es)) False"
      using t Cons.prems(2) by simp
    moreover have "\<not> isLoading (run sys (step sys e s) es)"
    proof -
      have "last (map isLoading (trace sys (step sys e s) es)) = False" unfolding t by simp
      then show ?thesis by (simp add: last_map trace_nonempty last_trace)
    qed
    ultimately show ?thesis by (metis run.simps(2) zero_less_Suc)
  qed
qed


lemma themes_differ: "darkTheme \<noteq> lightTheme"
  by (simp add: darkTheme_def lightTheme_def)

lemma map_of_rev_None: "map_of kvs k = None \<Longrightarrow> map_of (rev kvs) k = None"
  by (simp add: map_of_eq_None_iff)

section \<open>Statements about the resolver\<close>

text \<open>
  Claim C1. In every state the provider can reach from mount (the loading window
  included, after any sequence of toggles, storage answers and load completion), the
  theme handed to consumers is \<open>darkTheme\<close> when \<open>isDark\<close> is true and \<open>lightTheme\<close> when
  \<open>isDark\<close> is false: it is computed from the \<open>isDark\<close> of the same render (by its
  truthiness) and is not a state of its own. The two themes are different values.
\<close>

theorem theme_is_function_of_isDark:
  "(\<forall>s \<in> set (trace sys (mount sys st) es).
      theme (contextValue s) = (if truthy (ctx_isDark (contextValue s)) then darkTheme else lightTheme) \<and>
      (ctx_isDark (contextValue s) = JBool True \<longrightarrow> theme (contextValue s) = darkTheme) \<and>
      (ctx_isDark (contextValue s) = JBool False \<longrightarrow> theme (contextValue s) = lightTheme) \<and>
      ctx_isDark (contextValue s) = isDark s \<and>
      ctx_isLoading (contextValue s) = isLoading s) \<and>
   darkTheme \<noteq> lightTheme"
  by (simp add: contextValue_def themes_differ)

theorem theme_is_function_of_isDark_witness:
  "run SchemeLight (mount SchemeLight emptyStorage) [Toggle ''2024-01-01T00:00:00.000Z'']
     \<in> set (trace SchemeLight (mount SchemeLight emptyStorage) [Toggle ''2024-01-01T00:00:00.000Z'']) \<and>
   mount SchemeLight emptyStorage
     \<in> set (trace SchemeLight (mount SchemeLight emptyStorage) [Toggle ''2024-01-01T00:00:00.000Z'']) \<and>
   ctx_isDark (contextValue (run SchemeLight (mount SchemeLight emptyStorage)
       [Toggle ''2024-01-01T00:00:00.000Z''])) = JBool True \<and>
   theme (contextValue (run SchemeLight (mount SchemeLight emptyStorage)
       [Toggle ''2024-01-01T00:00:00.000Z''])) = darkTheme \<and>
   ctx_isDark (contextValue (mount SchemeLight emptyStorage)) = JBool False \<and>
   ctx_isLoading (contextValue (mount SchemeLight emptyStorage)) = True \<and>
   theme (contextValue (mount SchemeLight emptyStorage)) = lightTheme"
  using theme_is_function_of_isDark [of SchemeLight emptyStorage "[Toggle ''2024-01-01T00:00:00.000Z'']"]
  by (simp add: mount_def toggleTheme_def saveThemePreference_def emptyStorage_def)

text \<open>
  Claim C3, as stated: a stored value that is valid JSON but has no boolean \<open>isDark\<close>
  is treated as a parse failure, and the resolver keeps the platform-seeded \<open>isDark\<close>.
  It fails for the stored text \<open>{}\<close> on a platform that reports the dark scheme: the
  seed is \<open>true\<close>, the load sets \<open>isDark\<close> to \<open>undefined\<close> without a warning, and the light
  theme is shown. A stored \<open>{"isDark":"yes"}\<close> makes \<open>isDark\<close> the string \<open>"yes"\<close>.
\<close>

theorem load_missing_isDark_not_seed:
  "isDark (mount SchemeDark (emptyStorage(THEME_STORAGE_KEY \<mapsto> WellFormed (JObj [])))) = JBool True \<and>
   isDark (run SchemeDark (mount SchemeDark (emptyStorage(THEME_STORAGE_KEY \<mapsto> WellFormed (JObj []))))
       [GetItemSettles True, LoadResumes]) = JUndefined \<and>
   warnings (run SchemeDark (mount SchemeDark (emptyStorage(THEME_STORAGE_KEY \<mapsto> WellFormed (JObj []))))
       [GetItemSettles True, LoadResumes]) = [] \<and>
   theme (contextValue (run SchemeDark
       (mount SchemeDark (emptyStorage(THEME_STORAGE_KEY \<mapsto> WellFormed (JObj []))))
       [GetItemSettles True, LoadResumes])) = lightTheme \<and>
   isDark (run SchemeLight
       (mount SchemeLight (emptyStorage(THEME_STORAGE_KEY \<mapsto> WellFormed (JObj [(''isDark'', JStr ''yes'')]))))
       [GetItemSettles True, LoadResumes]) = JStr ''yes''"
  by (simp add: resolver_defs emptyStorage_def)

text \<open>
  Claim C3, amended: for a stored value that is valid JSON the load applies no check to
  the record. When the value is the JSON \<open>null\<close>, reading \<open>isDark\<close> throws and the resolver
  falls back to the platform-seeded \<open>isDark\<close> with a warning; for every other JSON value
  the resolver adopts the value's \<open>isDark\<close> property as it is, without a warning: that is
  \<open>undefined\<close>, shown as the light theme, when the field is missing. In every case
  \<open>isLoading\<close> becomes false.
\<close>

theorem load_adopts_isDark_unvalidated:
  assumes "load s = ReadSettled (ReadResolved (Some (WellFormed v)))"
  shows "\<not> isLoading (step sys LoadResumes s) \<and>
         (v = JNull \<longrightarrow>
            isDark (step sys LoadResumes s) = JBool (sys = SchemeDark) \<and>
            warnings (step sys LoadResumes s) = warnings s @ [''Failed to load theme preference:'']) \<and>
         (v \<noteq> JNull \<and> v \<noteq> JUndefined \<longrightarrow>
            prop_isDark v = Inr (isDark (step sys LoadResumes s)) \<and>
            warnings (step sys LoadResumes s) = warnings s) \<and>
         (\<forall>kvs. v = JObj kvs \<and> map_of kvs ''isDark'' = None \<longrightarrow>
            isDark (step sys LoadResumes s) = JUndefined \<and>
            theme (contextValue (step sys LoadResumes s)) = lightTheme)"
  using assms
  by (cases v)
     (simp_all add: loadThemePreference_def loadThemePreference_try_def contextValue_def
        map_of_rev_None)

theorem load_adopts_isDark_unvalidated_witness:
  "load (run SchemeDark (mount SchemeDark (emptyStorage(THEME_STORAGE_KEY \<mapsto> WellFormed (JObj []))))
       [GetItemSettles True]) = ReadSettled (ReadResolved (Some (WellFormed (JObj [])))) \<and>
   isDark (step SchemeDark LoadResumes
       (run SchemeDark (mount SchemeDark (emptyStorage(THEME_STORAGE_KEY \<mapsto> WellFormed (JObj []))))
          [GetItemSettles True])) = JUndefined \<and>
   load (run SchemeDark (mount SchemeDark (emptyStorage(THEME_STORAGE_KEY \<mapsto> WellFormed JNull)))
       [GetItemSettles True]) = ReadSettled (ReadResolved (Some (WellFormed JNull))) \<and>
   isDark (step SchemeDark LoadResumes
       (run SchemeDark (mount SchemeDark (emptyStorage(THEME_STORAGE_KEY \<mapsto> WellFormed JNull)))
          [GetItemSettles True])) = JBool True"
  using load_adopts_isDark_unvalidated [of
      "run SchemeDark (mount SchemeDark (emptyStorage(THEME_STORAGE_KEY \<mapsto> WellFormed (JObj []))))
         [GetItemSettles True]" "JObj []" SchemeDark]
    load_adopts_isDark_unvalidated [of
      "run SchemeDark (mount SchemeDark (emptyStorage(THEME_STORAGE_KEY \<mapsto> WellFormed JNull)))
         [GetItemSettles True]" JNull SchemeDark]
  by (simp add: mount_def emptyStorage_def)


text \<open>
  Claim C4. In every run in which the read was rejected or returned no record, \<open>isDark\<close>
  after the completion of the load is the platform seed, \<open>systemColorScheme === 'dark'\<close>
  (false for \<open>'light'\<close>, \<open>null\<close> and \<open>undefined\<close>), whatever toggles came before. In every run
  \<open>isLoading\<close> starts true, and the sequence of its values is a run of \<open>true\<close> followed by a
  run of \<open>false\<close>: it changes at most once, from true to false, never back, and it has
  changed exactly when the load has completed. The load does complete, with \<open>isLoading\<close>
  false, once the storage has answered and the continuation has run, whether the read
  succeeded or failed.
\<close>

theorem load_failure_keeps_seed_and_loading_clears_once:
  "(load (run sys (mount sys st) es) = ReadSettled r \<and> (r = ReadRejected \<or> r = ReadResolved None) \<longrightarrow>
      isDark (step sys LoadResumes (run sys (mount sys st) es)) = JBool (sys = SchemeDark) \<and>
      \<not> isLoading (step sys LoadResumes (run sys (mount sys st) es))) \<and>
   isDark (mount sys st) = JBool (sys = SchemeDark) \<and>
   (\<exists>k m. map isLoading (trace sys (mount sys st) es) = replicate (Suc k) True @ replicate m False \<and>
          (0 < m) = (load (run sys (mount sys st) es) = LoadFinished)) \<and>
   \<not> isLoading (run sys (run sys (mount sys st) es) [GetItemSettles ok, LoadResumes])"
proof -
  let ?s = "run sys (mount sys st) es"
  have inv: "loading_inv ?s" by (rule loading_inv_run [OF loading_inv_mount])
  have a: "load ?s = ReadSettled r \<and> (r = ReadRejected \<or> r = ReadResolved None) \<longrightarrow>
      isDark (step sys LoadResumes ?s) = JBool (sys = SchemeDark) \<and>
      \<not> isLoading (step sys LoadResumes ?s)"
    by (auto simp: loadThemePreference_def loadThemePreference_try_def)
  have b: "isDark (mount sys st) = JBool (sys = SchemeDark)" by (simp add: mount_def)
  have "isLoading (mount sys st)" by (simp add: mount_def)
  then obtain k m where km:
    "map isLoading (trace sys (mount sys st) es) = replicate (Suc k) True @ replicate m False"
    "(0 < m) = (\<not> isLoading ?s)"
    using loading_trace_shape [OF loading_inv_mount] by blast
  have "(\<not> isLoading ?s) = (load ?s = LoadFinished)" using inv by (simp add: loading_inv_def)
  then have c: "\<exists>k m. map isLoading (trace sys (mount sys st) es) =
                   replicate (Suc k) True @ replicate m False \<and>
                 (0 < m) = (load ?s = LoadFinished)"
    using km by blast
  have d: "\<not> isLoading (run sys ?s [GetItemSettles ok, LoadResumes])"
    using inv
    by (cases "load ?s")
       (simp_all add: loading_inv_def loadThemePreference_def split: sum.splits)
  show ?thesis using a b c d by blast
qed

theorem load_failure_keeps_seed_and_loading_clears_once_witness:
  "load (run SchemeDark (mount SchemeDark emptyStorage)
       [Toggle ''2024-01-01T00:00:00.000Z'', GetItemSettles False]) = ReadSettled ReadRejected \<and>
   isDark (run SchemeDark (mount SchemeDark emptyStorage)
       [Toggle ''2024-01-01T00:00:00.000Z'', GetItemSettles False]) = JBool False \<and>
   isDark (step SchemeDark LoadResumes (run SchemeDark (mount SchemeDark emptyStorage)
       [Toggle ''2024-01-01T00:00:00.000Z'', GetItemSettles False])) = JBool True \<and>
   \<not> isLoading (step SchemeDark LoadResumes (run SchemeDark (mount SchemeDark emptyStorage)
       [Toggle ''2024-01-01T00:00:00.000Z'', GetItemSettles False]))"
  using load_failure_keeps_seed_and_loading_clears_once [of SchemeDark emptyStorage
      "[Toggle ''2024-01-01T00:00:00.000Z'', GetItemSettles False]" ReadRejected]
  by (simp add: mount_def toggleTheme_def saveThemePreference_def emptyStorage_def)




text \<open>
  Claim C10. When the read of the load has returned a record that parses, with an
  \<open>isDark\<close> property \<open>d\<close>, then whatever toggles, renders and writes happen before the
  load completes, the completion sets \<open>isDark\<close> to \<open>d\<close>. In the run "the storage answers the
  read, the user toggles, the toggle's write is performed, the load completes" the final
  \<open>isDark\<close> is the value of the record that was read, while the storage holds the
  toggled value, which was the \<open>isDark\<close> in memory until the load completed.
\<close>

theorem load_completion_overrides_toggle:
  "(load s = ReadSettled (ReadResolved (Some (WellFormed v))) \<and> prop_isDark v = Inr d \<and>
      list_all is_render_toggle_or_write es \<longrightarrow>
      isDark (step sys LoadResumes (run sys s es)) = d \<and>
      \<not> isLoading (step sys LoadResumes (run sys s es))) \<and>
   isDark (run sys (mount sys (emptyStorage(THEME_STORAGE_KEY \<mapsto> stringify_preference b t0)))
       [GetItemSettles True, Toggle now, SetItemSettles 0 True, LoadResumes]) = JBool b \<and>
   store (run sys (mount sys (emptyStorage(THEME_STORAGE_KEY \<mapsto> stringify_preference b t0)))
       [GetItemSettles True, Toggle now, SetItemSettles 0 True, LoadResumes]) THEME_STORAGE_KEY =
     Some (stringify_preference (sys \<noteq> SchemeDark) now) \<and>
   isDark (run sys (mount sys (emptyStorage(THEME_STORAGE_KEY \<mapsto> stringify_preference b t0)))
       [GetItemSettles True, Toggle now, SetItemSettles 0 True]) = JBool (sys \<noteq> SchemeDark)"
proof -
  have a: "load s = ReadSettled (ReadResolved (Some (WellFormed v))) \<and> prop_isDark v = Inr d \<and>
      list_all is_render_toggle_or_write es \<longrightarrow>
      isDark (step sys LoadResumes (run sys s es)) = d \<and>
      \<not> isLoading (step sys LoadResumes (run sys s es))"
  proof
    assume h: "load s = ReadSettled (ReadResolved (Some (WellFormed v))) \<and> prop_isDark v = Inr d \<and>
      list_all is_render_toggle_or_write es"
    then have l: "load (run sys s es) = ReadSettled (ReadResolved (Some (WellFormed v)))"
      by (simp add: run_render_toggle_or_write_load)
    show "isDark (step sys LoadResumes (run sys s es)) = d \<and>
      \<not> isLoading (step sys LoadResumes (run sys s es))"
      using load_resume_isDark(1,2) [OF l, of sys] h by (simp add: loadThemePreference_try_def)
  qed
  show ?thesis using a by (simp add: resolver_defs emptyStorage_def Let_def)
qed

theorem load_completion_overrides_toggle_witness:
  "load (run SchemeLight (mount SchemeLight
       (emptyStorage(THEME_STORAGE_KEY \<mapsto> WellFormed (JObj [(''isDark'', JBool False)]))))
       [GetItemSettles True]) =
     ReadSettled (ReadResolved (Some (WellFormed (JObj [(''isDark'', JBool False)])))) \<and>
   prop_isDark (JObj [(''isDark'', JBool False)]) = Inr (JBool False) \<and>
   list_all is_render_toggle_or_write [Toggle ''2024-01-01T00:00:00.000Z'', SetItemSettles 0 True] \<and>
   isDark (step SchemeLight LoadResumes (run SchemeLight
       (run SchemeLight (mount SchemeLight
          (emptyStorage(THEME_STORAGE_KEY \<mapsto> WellFormed (JObj [(''isDark'', JBool False)]))))
          [GetItemSettles True])
       [Toggle ''2024-01-01T00:00:00.000Z'', SetItemSettles 0 True])) = JBool False"
  using load_completion_overrides_toggle [of
      "run SchemeLight (mount SchemeLight
          (emptyStorage(THEME_STORAGE_KEY \<mapsto> WellFormed (JObj [(''isDark'', JBool False)]))))
          [GetItemSettles True]"
      "JObj [(''isDark'', JBool False)]" "JBool False"
      "[Toggle ''2024-01-01T00:00:00.000Z'', SetItemSettles 0 True]" SchemeLight]
  by (simp add: mount_def emptyStorage_def)

end
